theory Spec2Isabelle
  imports Main
begin

section \<open>Python values, exceptions and outcomes\<close>

text \<open>
  The program is Python 2: \<open>Server.py\<close> defines actors that are threads and talk only through
  \<open>Queue\<close> objects. Messages are dynamically typed, so the values that travel on a queue are
  modelled by one datatype: \<open>None\<close>, integers, strings, tuples, lists and references to
  queue objects (a queue is identified by its address, as Python compares \<open>Queue\<close> objects by
  identity).
\<close>

type_synonym qref = nat

datatype pyval =
    PNone
  | PInt int
  | PStr string
  | PTuple "pyval list"
  | PList "pyval list"
  | PQueue qref

text \<open>
  The exceptions the code raises itself (\<open>IndexError\<close>, \<open>InvalidMessage\<close>) and the ones
  the interpreter raises on ill-typed operations. Only the first two are caught by the workers.
\<close>

datatype error = IndexError | InvalidMessage | TypeError | ValueError | AttributeError

text \<open>
  An operation on queues ends in one of three ways: it returns a value, it raises, or the thread
  is left blocked inside \<open>Queue.get\<close> / \<open>Queue.put\<close>.
\<close>

datatype 'a result = Done 'a | Raised error | Blocked

subsection \<open>Built-in operations used by the source\<close>

text \<open>\<open>len(v)\<close>. A \<open>Queue\<close> is an old-style instance without \<open>__len__\<close>.\<close>

fun py_len :: "pyval \<Rightarrow> error + nat" where
  "py_len (PStr s) = Inr (length s)"
| "py_len (PTuple xs) = Inr (length xs)"
| "py_len (PList xs) = Inr (length xs)"
| "py_len (PQueue q) = Inl AttributeError"
| "py_len PNone = Inl TypeError"
| "py_len (PInt i) = Inl TypeError"

text \<open>\<open>v[i]\<close> for a non-negative constant index; indexing a string gives a one-character string.\<close>

fun py_index :: "pyval \<Rightarrow> nat \<Rightarrow> error + pyval" where
  "py_index (PStr s) i = (if i < length s then Inr (PStr [s ! i]) else Inl IndexError)"
| "py_index (PTuple xs) i = (if i < length xs then Inr (xs ! i) else Inl IndexError)"
| "py_index (PList xs) i = (if i < length xs then Inr (xs ! i) else Inl IndexError)"
| "py_index (PQueue q) i = Inl AttributeError"
| "py_index PNone i = Inl TypeError"
| "py_index (PInt n) i = Inl TypeError"

text \<open>\<open>list(v)\<close>: the elements of a sequence; a string is the sequence of its characters.\<close>

fun py_list :: "pyval \<Rightarrow> error + pyval list" where
  "py_list (PStr s) = Inr (map (\<lambda>c. PStr [c]) s)"
| "py_list (PTuple xs) = Inr xs"
| "py_list (PList xs) = Inr xs"
| "py_list (PQueue q) = Inl TypeError"
| "py_list PNone = Inl TypeError"
| "py_list (PInt n) = Inl TypeError"

text \<open>\<open>v[:-1]\<close>: the slice keeps the type of the sequence.\<close>

fun py_slice_butlast :: "pyval \<Rightarrow> error + pyval" where
  "py_slice_butlast (PStr s) = Inr (PStr (butlast s))"
| "py_slice_butlast (PTuple xs) = Inr (PTuple (butlast xs))"
| "py_slice_butlast (PList xs) = Inr (PList (butlast xs))"
| "py_slice_butlast (PQueue q) = Inl AttributeError"
| "py_slice_butlast PNone = Inl TypeError"
| "py_slice_butlast (PInt n) = Inl TypeError"

text \<open>\<open>a, b = v\<close>: unpacking into exactly two targets.\<close>

definition py_unpack2 :: "pyval \<Rightarrow> error + (pyval \<times> pyval)" where
  "py_unpack2 v =
     (case py_list v of
        Inl e \<Rightarrow> Inl e
      | Inr xs \<Rightarrow> (case xs of [a, b] \<Rightarrow> Inr (a, b) | _ \<Rightarrow> Inl ValueError))"

text \<open>\<open>s.split(sep)\<close> for a one-character separator: always at least one piece.\<close>

fun split_acc :: "char \<Rightarrow> string \<Rightarrow> string \<Rightarrow> string list" where
  "split_acc sep acc [] = [rev acc]"
| "split_acc sep acc (c # cs) =
     (if c = sep then rev acc # split_acc sep [] cs else split_acc sep (c # acc) cs)"

definition py_split :: "string \<Rightarrow> char \<Rightarrow> string list" where
  "py_split s sep = split_acc sep [] s"

section \<open>Queues and the shared store\<close>

text \<open>
  The queue objects are the only state shared between threads. The store maps each queue
  reference to the queue's bound (\<open>maxsize\<close>, where \<open>maxsize \<le> 0\<close> means unbounded, as in
  \<open>Queue.Queue\<close>) and its pending items, oldest first. \<open>next_queue\<close> is the next unused
  reference, for \<open>Queue()\<close>. \<open>oplog\<close> is a ghost field: it records every completed \<open>get\<close>
  and \<open>put\<close> in the order they happen and is never read by the program.

  A thread is run against a store that already holds what the other threads have sent: a
  \<open>get\<close> on an empty queue leaves the thread blocked, as does a \<open>put\<close> on a full bounded queue.
\<close>

record pqueue =
  maxsize :: int
  items :: "pyval list"

datatype event = Get qref pyval | Put qref pyval

record store =
  queues :: "qref \<Rightarrow> pqueue"
  next_queue :: qref
  oplog :: "event list"

definition Queue_new :: "int \<Rightarrow> store \<Rightarrow> qref \<times> store" where
  "Queue_new m st =
     (next_queue st,
      st\<lparr>queues := (queues st)(next_queue st := \<lparr>maxsize = m, items = []\<rparr>),
         next_queue := Suc (next_queue st)\<rparr>)"

text \<open>
  \<open>Queue._put\<close> appends at the right end and \<open>Queue._get\<close> pops at the left end of the
  queue's deque.
\<close>

definition queue_append :: "store \<Rightarrow> qref \<Rightarrow> pyval \<Rightarrow> store" where
  "queue_append st q v =
     st\<lparr>queues := (queues st)(q := (queues st q)\<lparr>items := items (queues st q) @ [v]\<rparr>),
        oplog := oplog st @ [Put q v]\<rparr>"

definition queue_popleft :: "store \<Rightarrow> qref \<Rightarrow> pyval \<Rightarrow> pyval list \<Rightarrow> store" where
  "queue_popleft st q x xs =
     st\<lparr>queues := (queues st)(q := (queues st q)\<lparr>items := xs\<rparr>),
        oplog := oplog st @ [Get q x]\<rparr>"

text \<open>
  \<open>Queue.put(item)\<close> with the default \<open>block=True\<close>: a bounded queue that is full makes the
  caller wait. \<open>Queue.get()\<close>: an empty queue makes the caller wait.
\<close>

definition Queue_put :: "store \<Rightarrow> qref \<Rightarrow> pyval \<Rightarrow> unit result \<times> store" where
  "Queue_put st q v =
     (let Q = queues st q in
      if 0 < maxsize Q \<and> int (length (items Q)) = maxsize Q then (Blocked, st)
      else (Done (), queue_append st q v))"

definition Queue_get :: "store \<Rightarrow> qref \<Rightarrow> pyval result \<times> store" where
  "Queue_get st q =
     (case items (queues st q) of
        [] \<Rightarrow> (Blocked, st)
      | x # xs \<Rightarrow> (Done x, queue_popleft st q x xs))"

text \<open>\<open>Queue.full()\<close>: the condition under which \<open>put\<close> waits.\<close>

definition Queue_full :: "store \<Rightarrow> qref \<Rightarrow> bool" where
  "Queue_full st q =
     (0 < maxsize (queues st q) \<and> int (length (items (queues st q))) = maxsize (queues st q))"

text \<open>\<open>v.put(x)\<close> and \<open>v.get()\<close> on an arbitrary value: only queue objects have these methods.\<close>

fun py_put :: "store \<Rightarrow> pyval \<Rightarrow> pyval \<Rightarrow> unit result \<times> store" where
  "py_put st (PQueue q) v = Queue_put st q v"
| "py_put st _ v = (Raised AttributeError, st)"

fun py_get :: "store \<Rightarrow> pyval \<Rightarrow> pyval result \<times> store" where
  "py_get st (PQueue q) = Queue_get st q"
| "py_get st _ = (Raised AttributeError, st)"

section \<open>AbstractEntity\<close>

definition hello_signal :: pyval where
  "hello_signal = PStr ''HELLO''"

definition error_signal :: pyval where
  "error_signal = PStr ''ERROR''"

record entity =
  input_queue :: qref
  output_queue :: qref

definition establish_connection :: "store \<Rightarrow> 'a entity_scheme \<Rightarrow> pyval result \<times> store" where
  "establish_connection st endpoint =
     (case Queue_put st (input_queue endpoint) hello_signal of
        (Done u, st1) \<Rightarrow> Queue_get st1 (output_queue endpoint)
      | (Raised e, st1) \<Rightarrow> (Raised e, st1)
      | (Blocked, st1) \<Rightarrow> (Blocked, st1))"

definition is_message_error :: "pyval \<Rightarrow> bool" where
  "is_message_error message = (error_signal = message)"

definition validate_message_length :: "pyval \<Rightarrow> nat \<Rightarrow> error + unit" where
  "validate_message_length decrypted intended =
     (case py_len decrypted of
        Inl e \<Rightarrow> Inl e
      | Inr n \<Rightarrow> if n \<noteq> intended then Inl IndexError else Inr ())"

section \<open>AbstractStoppableEntity\<close>

definition finish_signal :: pyval where
  "finish_signal = PStr ''FINISH''"

record stoppable_entity = entity +
  waiting_queues :: "pyval list"

fun finish_loop :: "store \<Rightarrow> pyval list \<Rightarrow> unit result \<times> store" where
  "finish_loop st [] = (Done (), st)"
| "finish_loop st (waiting_queue # rest) =
     (case py_put st waiting_queue finish_signal of
        (Done u, st1) \<Rightarrow> finish_loop st1 rest
      | (Raised e, st1) \<Rightarrow> (Raised e, st1)
      | (Blocked, st1) \<Rightarrow> (Blocked, st1))"

definition finish :: "'a stoppable_entity_scheme \<Rightarrow> store \<Rightarrow> unit result \<times> store" where
  "finish s st = finish_loop st (waiting_queues s)"

definition is_finish_signal :: "pyval \<Rightarrow> bool" where
  "is_finish_signal message = (message = finish_signal)"

text \<open>
  \<open>get_from_queue\<close> records the queue before it blocks on it, so the record is made whether
  or not a message is there.
\<close>

definition get_from_queue ::
  "'a stoppable_entity_scheme \<Rightarrow> store \<Rightarrow> pyval \<Rightarrow>
     pyval result \<times> 'a stoppable_entity_scheme \<times> store" where
  "get_from_queue s st queue =
     (let s1 = (if queue \<notin> set (waiting_queues s)
                then s\<lparr>waiting_queues := waiting_queues s @ [queue]\<rparr> else s)
      in case py_get st queue of (r, st1) \<Rightarrow> (r, s1, st1))"

section \<open>The external helpers of \<open>Utils\<close>\<close>

text \<open>
  \<open>Server.py\<close> imports \<open>prepare_inner_message\<close>, \<open>generate_random_key\<close> and \<open>decrypt\<close>
  from the module \<open>Utils\<close>, whose source is not part of the files under study. They are
  parameters of the model, and every theorem holds for all of them:
  \<^item> \<open>decrypt ciphertext key\<close> returns a string (the tests call \<open>.split(':')\<close> on it) or raises;
  \<^item> \<open>prepare_inner_message key nonce random_value client_id server_id\<close> returns the
    encrypted block or raises;
  \<^item> \<open>random_key_str\<close> is the string \<open>str(generate_random_key())\<close> of the one call that a
    worker makes in a run.
\<close>

record utils =
  decrypt :: "pyval \<Rightarrow> pyval \<Rightarrow> error + string"
  prepare_inner_message :: "pyval \<Rightarrow> pyval \<Rightarrow> pyval \<Rightarrow> pyval \<Rightarrow> pyval \<Rightarrow> error + pyval"
  random_key_str :: string

section \<open>AbstractServer and Server\<close>

definition max_connections_signal :: pyval where
  "max_connections_signal = PStr ''MAX_CONNECTIONS_REACHED''"

record server = stoppable_entity +
  max_connections :: int
  invoke_workers :: bool
  running :: bool
  server_id :: pyval
  server_key :: pyval
  trusted_server :: entity

section \<open>ServerWorker\<close>

record server_worker = stoppable_entity +
  server_key :: pyval
  server_id :: pyval
  trusted_server :: entity
  trusted_server_input_queue :: pyval
  trusted_server_output_queue :: pyval
  trusted_random_value :: pyval
  client_random_value :: pyval
  client_client_id :: pyval
  client_server_id :: pyval
  trusted_nonce :: pyval
  session_key :: pyval
  nonce :: pyval

text \<open>\<open>ServerWorker.__init__\<close>: two fresh unbounded queues, every run field \<open>None\<close>.\<close>

definition ServerWorker_init ::
  "pyval \<Rightarrow> pyval \<Rightarrow> entity \<Rightarrow> store \<Rightarrow> server_worker \<times> store" where
  "ServerWorker_init sid skey trusted st =
     (case Queue_new 0 st of (qi, st1) \<Rightarrow>
      case Queue_new 0 st1 of (qo, st2) \<Rightarrow>
        (\<lparr>input_queue = qi, output_queue = qo, waiting_queues = [],
          server_key = skey, server_id = sid, trusted_server = trusted,
          trusted_server_input_queue = PNone, trusted_server_output_queue = PNone,
          trusted_random_value = PNone, client_random_value = PNone,
          client_client_id = PNone, client_server_id = PNone,
          trusted_nonce = PNone, session_key = PNone, nonce = PNone\<rparr>, st2))"

subsection \<open>The client leg\<close>

definition unpack_message_from_client ::
  "server_worker \<Rightarrow> pyval \<Rightarrow> (error + unit) \<times> server_worker" where
  "unpack_message_from_client w message =
     (case validate_message_length message 4 of
        Inl e \<Rightarrow> (Inl e, w)
      | Inr u \<Rightarrow>
     (case py_index message 0 of
        Inl e \<Rightarrow> (Inl e, w)
      | Inr m0 \<Rightarrow>
     (case py_index message 1 of
        Inl e \<Rightarrow> (Inl e, w\<lparr>client_random_value := m0\<rparr>)
      | Inr m1 \<Rightarrow>
     (case py_index message 2 of
        Inl e \<Rightarrow> (Inl e, w\<lparr>client_random_value := m0, client_client_id := m1\<rparr>)
      | Inr m2 \<Rightarrow>
          (Inr (), w\<lparr>client_random_value := m0, client_client_id := m1,
                      client_server_id := m2\<rparr>)))))"

definition validate_server_id_match :: "server_worker \<Rightarrow> error + unit" where
  "validate_server_id_match w =
     (if \<not> client_server_id w = server_id w then Inl InvalidMessage else Inr ())"

definition prepare_nested_message_for_trusted ::
  "utils \<Rightarrow> server_worker \<Rightarrow> (error + pyval) \<times> server_worker" where
  "prepare_nested_message_for_trusted U w =
     (let w1 = w\<lparr>nonce := PStr (random_key_str U)\<rparr> in
      (prepare_inner_message U (server_key w1) (nonce w1) (client_random_value w1)
         (client_client_id w1) (client_server_id w1), w1))"

definition prepare_message_for_trusted_server ::
  "utils \<Rightarrow> server_worker \<Rightarrow> pyval \<Rightarrow> (error + pyval) \<times> server_worker" where
  "prepare_message_for_trusted_server U w message =
     (case py_list message of
        Inl e \<Rightarrow> (Inl e, w)
      | Inr partial \<Rightarrow>
          (case prepare_nested_message_for_trusted U w of
             (Inl e, w1) \<Rightarrow> (Inl e, w1)
           | (Inr nested, w1) \<Rightarrow> (Inr (PTuple (partial @ [nested])), w1)))"

text \<open>
  The \<open>try\<close> block catches \<open>IndexError\<close> and \<open>InvalidMessage\<close> only; anything else leaves the
  function as an exception. The fields assigned before a failure stay assigned.
\<close>

definition caught :: "error \<Rightarrow> bool" where
  "caught e = (e = IndexError \<or> e = InvalidMessage)"

definition process_message_from_client_and_generate_message_to_trusted ::
  "utils \<Rightarrow> server_worker \<Rightarrow> pyval \<Rightarrow> (error + pyval) \<times> server_worker" where
  "process_message_from_client_and_generate_message_to_trusted U w message =
     (case unpack_message_from_client w message of
        (Inl e, w1) \<Rightarrow> (if caught e then (Inr error_signal, w1) else (Inl e, w1))
      | (Inr u, w1) \<Rightarrow>
          (case validate_server_id_match w1 of
             Inl e \<Rightarrow> (if caught e then (Inr error_signal, w1) else (Inl e, w1))
           | Inr u \<Rightarrow> prepare_message_for_trusted_server U w1 message))"

subsection \<open>The Trusted-Server leg\<close>

definition unpack_nested_message_from_trusted ::
  "utils \<Rightarrow> server_worker \<Rightarrow> pyval \<Rightarrow> (error + unit) \<times> server_worker" where
  "unpack_nested_message_from_trusted U w encrypted_message =
     (case decrypt U encrypted_message (server_key w) of
        Inl e \<Rightarrow> (Inl e, w)
      | Inr plain \<Rightarrow>
          (let decrypted = PList (map PStr (py_split plain CHR '':'')) in
           case validate_message_length decrypted 2 of
             Inl e \<Rightarrow> (Inl e, w)
           | Inr u \<Rightarrow>
               (case py_unpack2 decrypted of
                  Inl e \<Rightarrow> (Inl e, w)
                | Inr (a, b) \<Rightarrow> (Inr (), w\<lparr>trusted_nonce := a, session_key := b\<rparr>))))"

definition unpack_message_from_trusted ::
  "utils \<Rightarrow> server_worker \<Rightarrow> pyval \<Rightarrow> (error + unit) \<times> server_worker" where
  "unpack_message_from_trusted U w message =
     (case validate_message_length message 3 of
        Inl e \<Rightarrow> (Inl e, w)
      | Inr u \<Rightarrow>
     (case py_index message 0 of
        Inl e \<Rightarrow> (Inl e, w)
      | Inr m0 \<Rightarrow>
     (case py_index message 2 of
        Inl e \<Rightarrow> (Inl e, w\<lparr>trusted_random_value := m0\<rparr>)
      | Inr m2 \<Rightarrow>
          unpack_nested_message_from_trusted U (w\<lparr>trusted_random_value := m0\<rparr>) m2)))"

definition validate_random_value_from_trusted :: "server_worker \<Rightarrow> error + unit" where
  "validate_random_value_from_trusted w =
     (if \<not> trusted_random_value w = client_random_value w then Inl InvalidMessage else Inr ())"

definition validate_nested_message_from_trusted :: "server_worker \<Rightarrow> error + unit" where
  "validate_nested_message_from_trusted w =
     (if \<not> trusted_nonce w = nonce w then Inl InvalidMessage else Inr ())"

definition process_message_from_trusted_and_generate_response_for_client ::
  "utils \<Rightarrow> server_worker \<Rightarrow> pyval \<Rightarrow> (error + pyval) \<times> server_worker" where
  "process_message_from_trusted_and_generate_response_for_client U w message =
     (case unpack_message_from_trusted U w message of
        (Inl e, w1) \<Rightarrow> (if caught e then (Inr error_signal, w1) else (Inl e, w1))
      | (Inr u, w1) \<Rightarrow>
          (case validate_random_value_from_trusted w1 of
             Inl e \<Rightarrow> (if caught e then (Inr error_signal, w1) else (Inl e, w1))
           | Inr u \<Rightarrow>
               (case validate_nested_message_from_trusted w1 of
                  Inl e \<Rightarrow> (if caught e then (Inr error_signal, w1) else (Inl e, w1))
                | Inr u \<Rightarrow>
                    (case py_slice_butlast message of
                       Inl e \<Rightarrow> (Inl e, w1)
                     | Inr reply \<Rightarrow> (Inr reply, w1)))))"

subsection \<open>Connecting to the Trusted Server and the run of a worker\<close>

text \<open>
  The pair returned by the handshake is unpacked before either attribute is assigned, so a
  malformed answer leaves both attributes as they were.
\<close>

definition connect_to_trusted ::
  "server_worker \<Rightarrow> store \<Rightarrow> unit result \<times> server_worker \<times> store" where
  "connect_to_trusted w st =
     (case establish_connection st (trusted_server w) of
        (Blocked, st1) \<Rightarrow> (Blocked, w, st1)
      | (Raised e, st1) \<Rightarrow> (Raised e, w, st1)
      | (Done answer, st1) \<Rightarrow>
          (case py_unpack2 answer of
             Inl e \<Rightarrow> (Raised e, w, st1)
           | Inr (a, b) \<Rightarrow>
               (Done (), w\<lparr>trusted_server_input_queue := a,
                            trusted_server_output_queue := b\<rparr>, st1)))"

definition run :: "utils \<Rightarrow> server_worker \<Rightarrow> store \<Rightarrow> unit result \<times> server_worker \<times> store" where
  "run U w st =
     (case get_from_queue w st (PQueue (input_queue w)) of
        (Blocked, w1, st1) \<Rightarrow> (Blocked, w1, st1)
      | (Raised e, w1, st1) \<Rightarrow> (Raised e, w1, st1)
      | (Done message_from_client, w1, st1) \<Rightarrow>
     (case process_message_from_client_and_generate_message_to_trusted U w1 message_from_client of
        (Inl e, w2) \<Rightarrow> (Raised e, w2, st1)
      | (Inr message_to_trusted, w2) \<Rightarrow>
          if is_message_error message_to_trusted
          then (case Queue_put st1 (output_queue w2) error_signal of (r, st2) \<Rightarrow> (r, w2, st2))
          else
     (case connect_to_trusted w2 st1 of
        (Blocked, w3, st2) \<Rightarrow> (Blocked, w3, st2)
      | (Raised e, w3, st2) \<Rightarrow> (Raised e, w3, st2)
      | (Done u, w3, st2) \<Rightarrow>
     (case py_put st2 (trusted_server_input_queue w3) message_to_trusted of
        (Blocked, st3) \<Rightarrow> (Blocked, w3, st3)
      | (Raised e, st3) \<Rightarrow> (Raised e, w3, st3)
      | (Done u, st3) \<Rightarrow>
     (case get_from_queue w3 st3 (trusted_server_output_queue w3) of
        (Blocked, w4, st4) \<Rightarrow> (Blocked, w4, st4)
      | (Raised e, w4, st4) \<Rightarrow> (Raised e, w4, st4)
      | (Done message_from_trusted, w4, st4) \<Rightarrow>
     (case process_message_from_trusted_and_generate_response_for_client U w4 message_from_trusted of
        (Inl e, w5) \<Rightarrow> (Raised e, w5, st4)
      | (Inr message_for_client, w5) \<Rightarrow>
          (case Queue_put st4 (output_queue w5) message_for_client of
             (r, st5) \<Rightarrow> (r, w5, st5))))))))"

section \<open>The listening server\<close>

text \<open>
  \<open>Server.__init__\<close> through \<open>AbstractServer.__init__\<close> and \<open>AbstractEntity.__init__\<close>: the
  entity's two unbounded queues are created first, then the input queue is replaced by one
  bounded by \<open>max_connections\<close>.
\<close>

definition Server_init ::
  "pyval \<Rightarrow> pyval \<Rightarrow> int \<Rightarrow> entity \<Rightarrow> bool \<Rightarrow> store \<Rightarrow> server \<times> store" where
  "Server_init sid skey maxc trusted invoke st =
     (case Queue_new 0 st of (q0, st1) \<Rightarrow>
      case Queue_new 0 st1 of (qo, st2) \<Rightarrow>
      case Queue_new maxc st2 of (qi, st3) \<Rightarrow>
        (\<lparr>input_queue = qi, output_queue = qo, waiting_queues = [],
          max_connections = maxc, invoke_workers = invoke, running = False,
          server_id = sid, server_key = skey, trusted_server = trusted\<rparr>, st3))"

definition get_new_worker :: "server \<Rightarrow> store \<Rightarrow> server_worker \<times> store" where
  "get_new_worker s st =
     ServerWorker_init (server.server_id s) (server.server_key s) (server.trusted_server s) st"

text \<open>
  \<open>worker.start()\<close> hands the worker to a new thread; the model returns the workers that
  were started, each to be run by \<open>run\<close>.
\<close>

definition start_worker :: "server \<Rightarrow> server_worker \<Rightarrow> server_worker list" where
  "start_worker s worker = (if invoke_workers s then [worker] else [])"

definition connect :: "server \<Rightarrow> store \<Rightarrow> pyval \<times> server_worker list \<times> store" where
  "connect s st =
     (case get_new_worker s st of
        (worker, st1) \<Rightarrow>
          (PTuple [PQueue (input_queue worker), PQueue (output_queue worker)],
           start_worker s worker, st1))"

text \<open>
  The accept loop of \<open>AbstractServer.run\<close>, with fuel: \<open>None\<close> as outcome means that the
  loop is still running after \<open>n\<close> iterations, and the state reached so far is returned with it.
\<close>

fun serve :: "nat \<Rightarrow> server \<Rightarrow> store \<Rightarrow> server_worker list \<Rightarrow>
    unit result option \<times> server \<times> store \<times> server_worker list" where
  "serve 0 s st started =
     (if running s then (None, s, st, started) else (Some (Done ()), s, st, started))"
| "serve (Suc n) s st started =
     (if running s then
        (case get_from_queue s st (PQueue (input_queue s)) of
           (Blocked, s1, st1) \<Rightarrow> (Some Blocked, s1, st1, started)
         | (Raised e, s1, st1) \<Rightarrow> (Some (Raised e), s1, st1, started)
         | (Done message, s1, st1) \<Rightarrow>
             if is_finish_signal message then serve n (s1\<lparr>running := False\<rparr>) st1 started
             else
               (case connect s1 st1 of
                  (pair, new, st2) \<Rightarrow>
                    (case Queue_put st2 (output_queue s1) pair of
                       (Blocked, st3) \<Rightarrow> (Some Blocked, s1, st3, started @ new)
                     | (Raised e, st3) \<Rightarrow> (Some (Raised e), s1, st3, started @ new)
                     | (Done u, st3) \<Rightarrow> serve n s1 st3 (started @ new))))
      else (Some (Done ()), s, st, started))"

definition server_run :: "nat \<Rightarrow> server \<Rightarrow> store \<Rightarrow>
    unit result option \<times> server \<times> store \<times> server_worker list" where
  "server_run n s st = serve n (s\<lparr>running := True\<rparr>) st []"

section \<open>Observations on the log and an example configuration\<close>

text \<open>\<open>never_emitted v st\<close>: no completed \<open>put\<close> recorded in the log of \<open>st\<close> carried \<open>v\<close>.\<close>

fun is_put_of :: "pyval \<Rightarrow> event \<Rightarrow> bool" where
  "is_put_of v (Put q x) = (x = v)"
| "is_put_of v (Get q x) = False"

definition never_emitted :: "pyval \<Rightarrow> store \<Rightarrow> bool" where
  "never_emitted v st = (\<not> list_ex (is_put_of v) (oplog st))"

text \<open>
  \<open>puts_on q evs\<close>: how many of the operations \<open>evs\<close> are puts on the queue \<open>q\<close>;
  \<open>new_events st st'\<close>: the operations recorded between the store \<open>st\<close> and the later
  store \<open>st'\<close>.
\<close>

fun is_put_on :: "qref \<Rightarrow> event \<Rightarrow> bool" where
  "is_put_on q (Put q' x) = (q' = q)"
| "is_put_on q (Get q' x) = False"

definition puts_on :: "qref \<Rightarrow> event list \<Rightarrow> nat" where
  "puts_on q evs = length (filter (is_put_on q) evs)"

definition new_events :: "store \<Rightarrow> store \<Rightarrow> event list" where
  "new_events st st' = drop (length (oplog st)) (oplog st')"

text \<open>
  A small configuration on which the theorems are exercised: a toy cipher that sends a string
  to itself; a store with six queues allocated (0 to 5), all empty and unbounded; a Trusted
  Server listening on queues 2 and 3; the worker that \<open>ServerWorker.__init__\<close> builds next for
  server \<open>s1\<close> (its queues are 6 and 7); and the listening server \<open>s1\<close> built after it
  (its bounded input queue is 10, its output queue 9).
\<close>

definition toy_utils :: utils where
  "toy_utils =
     \<lparr>decrypt = (\<lambda>c k. case c of PStr s \<Rightarrow> Inr s | _ \<Rightarrow> Inl TypeError),
      prepare_inner_message = (\<lambda>k n r c s. Inr (PTuple [k, n, r, c, s])),
      random_key_str = ''42''\<rparr>"

definition empty_store :: store where
  "empty_store = \<lparr>queues = (\<lambda>q. \<lparr>maxsize = 0, items = []\<rparr>), next_queue = 6, oplog = []\<rparr>"

definition toy_trusted :: entity where
  "toy_trusted = \<lparr>input_queue = 2, output_queue = 3\<rparr>"

definition toy_worker :: server_worker where
  "toy_worker = fst (ServerWorker_init (PStr ''s1'') (PInt 7) toy_trusted empty_store)"

definition toy_store :: store where
  "toy_store = snd (ServerWorker_init (PStr ''s1'') (PInt 7) toy_trusted empty_store)"


definition toy_request :: pyval where
  "toy_request = PTuple [PStr ''r'', PStr ''c1'', PStr ''s1'', PStr ''blk'']"

definition toy_reply :: pyval where
  "toy_reply = PTuple [PStr ''r'', PStr ''for-client'', PStr ''42:sk'']"

text \<open>
  The store in which the client's request, the Trusted Server's answer to the handshake
  (the queue pair 4, 5) and the Trusted Server's reply are waiting.
\<close>

definition toy_session :: store where
  "toy_session =
     toy_store\<lparr>queues := (queues toy_store)
        (6 := \<lparr>maxsize = 0, items = [toy_request]\<rparr>,
         3 := \<lparr>maxsize = 0, items = [PTuple [PQueue 4, PQueue 5]]\<rparr>,
         5 := \<lparr>maxsize = 0, items = [toy_reply]\<rparr>)\<rparr>"

text \<open>
  The listening server \<open>s1\<close>, built in that store, and the store that results, with two
  connection requests and the termination marker waiting on the server's input queue.
\<close>

definition toy_server :: server where
  "toy_server = fst (Server_init (PStr ''s1'') (PInt 7) 5 toy_trusted True toy_session)"

definition toy_listening :: store where
  "toy_listening =
     (let st = snd (Server_init (PStr ''s1'') (PInt 7) 5 toy_trusted True toy_session)
      in st\<lparr>queues := (queues st)
           (10 := \<lparr>maxsize = 5, items = [hello_signal, hello_signal, finish_signal]\<rparr>)\<rparr>)"

text \<open>
  A store in which the Trusted Server has answered the handshake with the worker's own output
  queue (7) as the queue to send the request to.
\<close>

definition toy_aliased :: store where
  "toy_aliased =
     toy_session\<lparr>queues := (queues toy_session)
        (3 := \<lparr>maxsize = 0, items = [PTuple [PQueue 7, PQueue 5]]\<rparr>)\<rparr>"





section \<open>Properties of the built-in operations and of message processing\<close>

lemma py_list_len: "py_list m = Inr xs \<Longrightarrow> py_len m = Inr (length xs)"
  by (cases m) auto

lemma py_list_index: "py_list m = Inr xs \<Longrightarrow> i < length xs \<Longrightarrow> py_index m i = Inr (xs ! i)"
  by (cases m) auto

lemma py_len_list: "py_len m = Inr n \<Longrightarrow> \<exists>xs. py_list m = Inr xs \<and> length xs = n"
  by (cases m) auto

lemma unpack_client_fields:
  assumes "py_list m = Inr [rc, cid, sid, blk]"
  shows "unpack_message_from_client w m =
    (Inr (), w\<lparr>client_random_value := rc, client_client_id := cid, client_server_id := sid\<rparr>)"
  using py_list_len[OF assms] py_list_index[OF assms, of 0] py_list_index[OF assms, of 1]
    py_list_index[OF assms, of 2]
  by (simp add: unpack_message_from_client_def validate_message_length_def)

lemma unpack_client_arity:
  assumes "py_len m = Inr n" "n \<noteq> 4"
  shows "unpack_message_from_client w m = (Inl IndexError, w)"
  using assms by (simp add: unpack_message_from_client_def validate_message_length_def)

lemma process_client_mismatch:
  assumes "py_list m = Inr [rc, cid, sid, blk]" "sid \<noteq> server_id w"
  shows "process_message_from_client_and_generate_message_to_trusted U w m =
    (Inr error_signal, w\<lparr>client_random_value := rc, client_client_id := cid, client_server_id := sid\<rparr>)"
  using assms(2)
  by (simp add: process_message_from_client_and_generate_message_to_trusted_def
      unpack_client_fields[OF assms(1)] validate_server_id_match_def caught_def)

lemma process_client_accept:
  assumes "py_list m = Inr [rc, cid, sid, blk]" "sid = server_id w"
   "prepare_inner_message U (server_key w) (PStr (random_key_str U)) rc cid sid = Inr enc"
  shows "process_message_from_client_and_generate_message_to_trusted U w m =
    (Inr (PTuple [rc, cid, sid, blk, enc]),
     w\<lparr>client_random_value := rc, client_client_id := cid, client_server_id := sid,
       nonce := PStr (random_key_str U)\<rparr>)"
  using assms
  by (simp add: process_message_from_client_and_generate_message_to_trusted_def
      unpack_client_fields[OF assms(1)] validate_server_id_match_def
      prepare_message_for_trusted_server_def prepare_nested_message_for_trusted_def)

lemma process_client_arity:
  assumes "py_len m = Inr n" "n \<noteq> 4"
  shows "process_message_from_client_and_generate_message_to_trusted U w m = (Inr error_signal, w)"
  by (simp add: process_message_from_client_and_generate_message_to_trusted_def
      unpack_client_arity[OF assms] caught_def)

lemma unpack_nested_ok:
  assumes "decrypt U blk (server_key w) = Inr plain" "py_split plain CHR '':'' = [n, k]"
  shows "unpack_nested_message_from_trusted U w blk =
     (Inr (), w\<lparr>trusted_nonce := PStr n, session_key := PStr k\<rparr>)"
  using assms
  by (simp add: unpack_nested_message_from_trusted_def validate_message_length_def py_unpack2_def)

lemma unpack_nested_arity:
  assumes "decrypt U blk (server_key w) = Inr plain" "length (py_split plain CHR '':'') \<noteq> 2"
  shows "unpack_nested_message_from_trusted U w blk = (Inl IndexError, w)"
  using assms
  by (simp add: unpack_nested_message_from_trusted_def validate_message_length_def)

lemma unpack_trusted_fields:
  assumes "py_list m = Inr [rv, bc, bs]"
  shows "unpack_message_from_trusted U w m =
     unpack_nested_message_from_trusted U (w\<lparr>trusted_random_value := rv\<rparr>) bs"
  using py_list_len[OF assms] py_list_index[OF assms, of 0] py_list_index[OF assms, of 2]
  by (simp add: unpack_message_from_trusted_def validate_message_length_def)

lemma unpack_trusted_arity:
  assumes "py_len m = Inr n" "n \<noteq> 3"
  shows "unpack_message_from_trusted U w m = (Inl IndexError, w)"
  using assms by (simp add: unpack_message_from_trusted_def validate_message_length_def)

lemma process_trusted_arity:
  assumes "py_len m = Inr n" "n \<noteq> 3"
  shows "process_message_from_trusted_and_generate_response_for_client U w m = (Inr error_signal, w)"
  by (simp add: process_message_from_trusted_and_generate_response_for_client_def
      unpack_trusted_arity[OF assms] caught_def)

lemma length2_cases: "length xs = 2 \<Longrightarrow> \<exists>a b. xs = [a, b]"
  by (cases xs; cases "tl xs") auto

lemma process_trusted_nested_arity:
  assumes "py_list m = Inr [rv, bc, bs]" "decrypt U bs (server_key w) = Inr plain"
    "length (py_split plain CHR '':'') \<noteq> 2"
  shows "process_message_from_trusted_and_generate_response_for_client U w m =
     (Inr error_signal, w\<lparr>trusted_random_value := rv\<rparr>)"
  using assms(2,3)
  by (simp add: process_message_from_trusted_and_generate_response_for_client_def
      unpack_trusted_fields[OF assms(1)] unpack_nested_arity caught_def)

lemma process_trusted_split2:
  assumes "py_list m = Inr [rv, bc, bs]" "decrypt U bs (server_key w) = Inr plain"
    "py_split plain CHR '':'' = [n, k]"
  shows "process_message_from_trusted_and_generate_response_for_client U w m =
     (if rv = client_random_value w \<and> PStr n = nonce w
      then (case py_slice_butlast m of Inl e \<Rightarrow> Inl e | Inr reply \<Rightarrow> Inr reply)
      else Inr error_signal,
      w\<lparr>trusted_random_value := rv, trusted_nonce := PStr n, session_key := PStr k\<rparr>)"
  using assms(2,3)
  by (simp add: process_message_from_trusted_and_generate_response_for_client_def
      unpack_trusted_fields[OF assms(1)] unpack_nested_ok caught_def
      validate_random_value_from_trusted_def validate_nested_message_from_trusted_def
      split: sum.splits)


section \<open>Properties of the queue operations\<close>

lemma append_items [simp]:
  "items (queues (queue_append st q v) q') =
     (if q' = q then items (queues st q) @ [v] else items (queues st q'))"
  by (simp add: queue_append_def)

lemma append_maxsize [simp]: "maxsize (queues (queue_append st q v) q') = maxsize (queues st q')"
  by (simp add: queue_append_def)

lemma append_oplog [simp]: "oplog (queue_append st q v) = oplog st @ [Put q v]"
  by (simp add: queue_append_def)

lemma append_next [simp]: "next_queue (queue_append st q v) = next_queue st"
  by (simp add: queue_append_def)

lemma popleft_items [simp]:
  "items (queues (queue_popleft st q x xs) q') = (if q' = q then xs else items (queues st q'))"
  by (simp add: queue_popleft_def)

lemma popleft_maxsize [simp]: "maxsize (queues (queue_popleft st q x xs) q') = maxsize (queues st q')"
  by (simp add: queue_popleft_def)

lemma popleft_oplog [simp]: "oplog (queue_popleft st q x xs) = oplog st @ [Get q x]"
  by (simp add: queue_popleft_def)

lemma popleft_next [simp]: "next_queue (queue_popleft st q x xs) = next_queue st"
  by (simp add: queue_popleft_def)

lemma Queue_put_unbounded:
  "maxsize (queues st q) \<le> 0 \<Longrightarrow> Queue_put st q v = (Done (), queue_append st q v)"
  by (simp add: Queue_put_def Let_def)

lemma Queue_get_head:
  "items (queues st q) = x # xs \<Longrightarrow> Queue_get st q = (Done x, queue_popleft st q x xs)"
  by (simp add: Queue_get_def)

lemma get_from_queue_head:
  "items (queues st q) = x # xs \<Longrightarrow>
   get_from_queue s st (PQueue q) =
     (Done x, s\<lparr>waiting_queues := (if PQueue q \<in> set (waiting_queues s) then waiting_queues s
           else waiting_queues s @ [PQueue q])\<rparr>, queue_popleft st q x xs)"
  by (simp add: get_from_queue_def Queue_get_head)

lemma error_signal_not_tuple [simp]: "error_signal \<noteq> PTuple xs" "PTuple xs \<noteq> error_signal"
  by (simp_all add: error_signal_def)

lemma process_trusted_entity:
  "process_message_from_trusted_and_generate_response_for_client U w m = (r, w') \<Longrightarrow>
   output_queue w' = output_queue w \<and> input_queue w' = input_queue w
   \<and> waiting_queues w' = waiting_queues w"
  by (auto simp: process_message_from_trusted_and_generate_response_for_client_def
      unpack_message_from_trusted_def unpack_nested_message_from_trusted_def Let_def
      split: sum.splits prod.splits if_splits)


lemma Queue_full_append [simp]:
  "q' \<noteq> q \<Longrightarrow> Queue_full (queue_append st q v) q' = Queue_full st q'"
  by (simp add: Queue_full_def)

lemma Queue_full_popleft [simp]:
  "q' \<noteq> q \<Longrightarrow> Queue_full (queue_popleft st q x xs) q' = Queue_full st q'"
  by (simp add: Queue_full_def)

lemma Queue_put_not_full:
  "\<not> Queue_full st q \<Longrightarrow> Queue_put st q v = (Done (), queue_append st q v)"
  by (simp add: Queue_put_def Queue_full_def Let_def)

lemma queues_append_other [simp]: "q' \<noteq> q \<Longrightarrow> queues (queue_append st q v) q' = queues st q'"
  by (simp add: queue_append_def)

lemma queues_popleft_other [simp]: "q' \<noteq> q \<Longrightarrow> queues (queue_popleft st q x xs) q' = queues st q'"
  by (simp add: queue_popleft_def)


lemma Queue_put_cases:
  "Queue_put st q v = (r, st') \<Longrightarrow>
     (r = Blocked \<and> st' = st) \<or> (r = Done () \<and> st' = queue_append st q v)"
  by (auto simp: Queue_put_def Let_def split: if_splits)

lemma Queue_get_cases:
  "Queue_get st q = (r, st') \<Longrightarrow>
     (r = Blocked \<and> st' = st) \<or> (\<exists>x xs. r = Done x \<and> st' = queue_popleft st q x xs)"
  by (auto simp: Queue_get_def split: list.splits)

lemma py_put_cases:
  "py_put st t v = (r, st') \<Longrightarrow>
     (r \<noteq> Done () \<and> st' = st) \<or> (\<exists>q. t = PQueue q \<and> r = Done () \<and> st' = queue_append st q v)"
  by (cases t) (auto dest: Queue_put_cases)

lemma get_from_queue_cases:
  "get_from_queue s st t = (r, s', st') \<Longrightarrow>
     ((\<forall>x. r \<noteq> Done x) \<and> st' = st) \<or>
     (\<exists>q x xs. t = PQueue q \<and> r = Done x \<and> st' = queue_popleft st q x xs)"
  by (cases t) (auto simp: get_from_queue_def dest: Queue_get_cases split: prod.splits)

lemma get_from_queue_entity:
  "get_from_queue s st t = (r, s', st') \<Longrightarrow>
     input_queue s' = input_queue s \<and> output_queue s' = output_queue s \<and> more s' = more s"
  by (auto simp: get_from_queue_def split: prod.splits if_splits)

lemma process_client_entity:
  "process_message_from_client_and_generate_message_to_trusted U w m = (r, w') \<Longrightarrow>
   output_queue w' = output_queue w \<and> input_queue w' = input_queue w
   \<and> waiting_queues w' = waiting_queues w \<and> trusted_server w' = trusted_server w"
  by (auto simp: process_message_from_client_and_generate_message_to_trusted_def
      unpack_message_from_client_def prepare_message_for_trusted_server_def
      prepare_nested_message_for_trusted_def Let_def
      split: sum.splits prod.splits if_splits)

lemma establish_connection_cases:
  "establish_connection st e = (r, st') \<Longrightarrow>
     (r = Blocked \<and> st' = st) \<or>
     (r = Blocked \<and> st' = queue_append st (input_queue e) hello_signal) \<or>
     (\<exists>x xs. r = Done x \<and>
        st' = queue_popleft (queue_append st (input_queue e) hello_signal) (output_queue e) x xs)"
  by (auto simp: establish_connection_def split: prod.splits result.splits
      dest!: Queue_put_cases Queue_get_cases)

lemma connect_to_trusted_cases:
  assumes "connect_to_trusted w st = (r, w', st')"
  shows "(r \<noteq> Done () \<and>
          (oplog st' = oplog st \<or>
           oplog st' = oplog st @ [Put (input_queue (trusted_server w)) hello_signal] \<or>
           (\<exists>x. oplog st' = oplog st @ [Put (input_queue (trusted_server w)) hello_signal,
                     Get (output_queue (trusted_server w)) x]))) \<or>
         (r = Done () \<and> (\<exists>x a b. oplog st' = oplog st @
               [Put (input_queue (trusted_server w)) hello_signal,
                Get (output_queue (trusted_server w)) x] \<and> py_unpack2 x = Inr (a, b) \<and>
             w' = w\<lparr>trusted_server_input_queue := a, trusted_server_output_queue := b\<rparr>))"
proof (cases "establish_connection st (trusted_server w)")
  case (Pair r0 st0)
  from establish_connection_cases[OF Pair] consider
      (blk) "r0 = Blocked" "oplog st0 = oplog st \<or>
           oplog st0 = oplog st @ [Put (input_queue (trusted_server w)) hello_signal]"
    | (dn) x where "r0 = Done x" "oplog st0 = oplog st @
               [Put (input_queue (trusted_server w)) hello_signal,
                Get (output_queue (trusted_server w)) x]"
    by auto
  then show ?thesis
  proof cases
    case blk
    then show ?thesis using assms Pair by (auto simp: connect_to_trusted_def)
  next
    case dn
    show ?thesis
    proof (cases "py_unpack2 x")
      case (Inl e)
      then show ?thesis using assms Pair dn by (auto simp: connect_to_trusted_def)
    next
      case (Inr ab)
      obtain a b where ab: "ab = (a, b)" by (cases ab)
      have "r = Done ()" "st' = st0"
        "w' = w\<lparr>trusted_server_input_queue := a, trusted_server_output_queue := b\<rparr>"
        using assms Pair dn Inr ab by (auto simp: connect_to_trusted_def)
      then show ?thesis using dn Inr ab by blast
    qed
  qed
qed


section \<open>The queue operations of a run, in order\<close>

lemma process_client_value:
  "process_message_from_client_and_generate_message_to_trusted U w m = (Inr v, w') \<Longrightarrow>
     v = error_signal \<or> (\<exists>xs. v = PTuple xs)"
  by (auto simp: process_message_from_client_and_generate_message_to_trusted_def
      prepare_message_for_trusted_server_def
      split: sum.splits prod.splits if_splits)

lemma process_trusted_value:
  "process_message_from_trusted_and_generate_response_for_client U w m = (Inr v, w') \<Longrightarrow>
     v = error_signal \<or> (py_len m = Inr 3 \<and> py_slice_butlast m = Inr v)"
  by (auto simp: process_message_from_trusted_and_generate_response_for_client_def
      unpack_message_from_trusted_def validate_message_length_def
      split: sum.splits prod.splits if_splits)

lemma slice3_not_max:
  assumes "py_len m = Inr 3" "py_slice_butlast m = Inr v"
  shows "v \<noteq> max_connections_signal"
proof
  assume "v = max_connections_signal"
  then obtain s where s: "m = PStr s" "butlast s = ''MAX_CONNECTIONS_REACHED''" "length s = 3"
    using assms by (cases m) (auto simp: max_connections_signal_def)
  have "length (butlast s) = 2" using s(3) by simp
  moreover have "length (butlast s) = 23" unfolding s(2) by simp
  ultimately show False by simp
qed

lemma error_not_max [simp]: "error_signal \<noteq> max_connections_signal"
  "hello_signal \<noteq> max_connections_signal" "finish_signal \<noteq> max_connections_signal"
  "PTuple xs \<noteq> max_connections_signal"
  by (simp_all add: error_signal_def max_connections_signal_def hello_signal_def finish_signal_def)

lemma process_trusted_not_max:
  "process_message_from_trusted_and_generate_response_for_client U w m = (Inr v, w') \<Longrightarrow>
     v \<noteq> max_connections_signal"
  by (drule process_trusted_value)
    (auto dest: slice3_not_max simp: error_signal_def max_connections_signal_def)

lemma get_from_queue_session:
  fixes w :: server_worker
  shows "get_from_queue w st t = (r, w', st') \<Longrightarrow>
     trusted_server_input_queue w' = trusted_server_input_queue w
     \<and> trusted_server_output_queue w' = trusted_server_output_queue w"
  by (auto simp: get_from_queue_def split: prod.splits if_splits)

lemma process_trusted_session:
  "process_message_from_trusted_and_generate_response_for_client U w m = (r, w') \<Longrightarrow>
     trusted_server_input_queue w' = trusted_server_input_queue w
     \<and> trusted_server_output_queue w' = trusted_server_output_queue w"
  by (auto simp: process_message_from_trusted_and_generate_response_for_client_def
      unpack_message_from_trusted_def unpack_nested_message_from_trusted_def Let_def
      split: sum.splits prod.splits if_splits)

lemma reply_leg_session:
  assumes "(case py_put st2 tq msg of
        (Blocked, st3) \<Rightarrow> (Blocked, w3, st3)
      | (Raised e, st3) \<Rightarrow> (Raised e, w3, st3)
      | (Done u, st3) \<Rightarrow>
     (case get_from_queue w3 st3 tq' of
        (Blocked, w4, st4) \<Rightarrow> (Blocked, w4, st4)
      | (Raised e, w4, st4) \<Rightarrow> (Raised e, w4, st4)
      | (Done message_from_trusted, w4, st4) \<Rightarrow>
     (case process_message_from_trusted_and_generate_response_for_client U w4 message_from_trusted of
        (Inl e, w5) \<Rightarrow> (Raised e, w5, st4)
      | (Inr message_for_client, w5) \<Rightarrow>
          (case Queue_put st4 (output_queue w5) message_for_client of
             (r, st5) \<Rightarrow> (r, w5, st5))))) = (r, w', st')"
  shows "trusted_server_input_queue w' = trusted_server_input_queue w3
       \<and> trusted_server_output_queue w' = trusted_server_output_queue w3"
proof (cases "py_put st2 tq msg")
  case (Pair r3 st3)
  show ?thesis
  proof (cases r3)
    case (Done u)
    obtain r4 w4 st4 where g: "get_from_queue w3 st3 tq' = (r4, w4, st4)"
      by (cases "get_from_queue w3 st3 tq'") auto
    note s4 = get_from_queue_session[OF g]
    show ?thesis
    proof (cases r4)
      case d: (Done reply)
      obtain pr w5 where pt:
        "process_message_from_trusted_and_generate_response_for_client U w4 reply = (pr, w5)"
        by (cases "process_message_from_trusted_and_generate_response_for_client U w4 reply") auto
      note s5 = process_trusted_session[OF pt]
      show ?thesis
        using assms Pair Done g d pt s4 s5 by (cases pr) (auto split: prod.splits)
    next
      case (Raised e)
      then show ?thesis using assms Pair Done g s4 by auto
    next
      case Blocked
      then show ?thesis using assms Pair Done g s4 by auto
    qed
  next
    case (Raised e)
    then show ?thesis using assms Pair by auto
  next
    case Blocked
    then show ?thesis using assms Pair by auto
  qed
qed

lemma reply_leg_cases:
  assumes "(case py_put st2 tq msg of
        (Blocked, st3) \<Rightarrow> (Blocked, w3, st3)
      | (Raised e, st3) \<Rightarrow> (Raised e, w3, st3)
      | (Done u, st3) \<Rightarrow>
     (case get_from_queue w3 st3 tq' of
        (Blocked, w4, st4) \<Rightarrow> (Blocked, w4, st4)
      | (Raised e, w4, st4) \<Rightarrow> (Raised e, w4, st4)
      | (Done message_from_trusted, w4, st4) \<Rightarrow>
     (case process_message_from_trusted_and_generate_response_for_client U w4 message_from_trusted of
        (Inl e, w5) \<Rightarrow> (Raised e, w5, st4)
      | (Inr message_for_client, w5) \<Rightarrow>
          (case Queue_put st4 (output_queue w5) message_for_client of
             (r, st5) \<Rightarrow> (r, w5, st5))))) = (r, w', st')"
  shows "(r \<noteq> Done () \<and> oplog st' = oplog st2) \<or>
         (\<exists>a. r \<noteq> Done () \<and> tq = PQueue a \<and> oplog st' = oplog st2 @ [Put a msg]) \<or>
         (\<exists>a b reply. r \<noteq> Done () \<and> tq = PQueue a \<and> tq' = PQueue b \<and>
             oplog st' = oplog st2 @ [Put a msg, Get b reply]) \<or>
         (\<exists>a b reply v. r = Done () \<and> tq = PQueue a \<and> tq' = PQueue b \<and>
             v \<noteq> max_connections_signal \<and>
             oplog st' = oplog st2 @ [Put a msg, Get b reply, Put (output_queue w3) v])"
proof (cases "py_put st2 tq msg")
  case (Pair r3 st3)
  from py_put_cases[OF Pair] consider (np) "r3 \<noteq> Done ()" "st3 = st2"
    | (p) a where "r3 = Done ()" "st3 = queue_append st2 a msg" "tq = PQueue a" by blast
  then show ?thesis
  proof cases
    case np
    then show ?thesis using assms Pair by (cases r3) auto
  next
    case p
    obtain r4 w4 st4 where g: "get_from_queue w3 st3 tq' = (r4, w4, st4)"
      by (cases "get_from_queue w3 st3 tq'") auto
    from get_from_queue_cases[OF g] consider (ng) "\<forall>x. r4 \<noteq> Done x" "st4 = st3"
      | (g) b reply xs where "r4 = Done reply" "st4 = queue_popleft st3 b reply xs"
          "tq' = PQueue b" by blast
    then show ?thesis
    proof cases
      case ng
      then show ?thesis using assms Pair p g by (cases r4) auto
    next
      case g2: g
      have oq4: "output_queue w4 = output_queue w3"
        using get_from_queue_entity[OF g] by simp
      obtain pr w5 where pt:
        "process_message_from_trusted_and_generate_response_for_client U w4 reply = (pr, w5)"
        by (cases "process_message_from_trusted_and_generate_response_for_client U w4 reply") auto
      have oq5: "output_queue w5 = output_queue w3"
        using process_trusted_entity[OF pt] oq4 by simp
      show ?thesis
      proof (cases pr)
        case (Inl e)
        then show ?thesis using assms Pair p g g2 pt by auto
      next
        case (Inr v)
        obtain r6 st6 where q: "Queue_put st4 (output_queue w5) v = (r6, st6)"
          by (cases "Queue_put st4 (output_queue w5) v") auto
        have res: "r = r6" "st' = st6"
          using assms Pair p g g2 pt Inr q by auto
        have "v \<noteq> max_connections_signal"
          using process_trusted_not_max pt Inr by blast
        with Queue_put_cases[OF q] show ?thesis
          using res g2 p oq5 by auto
      qed
    qed
  qed
qed

lemma run_trace:
  assumes "run U w st = (r, w', st')"
  shows "(r \<noteq> Done () \<and> oplog st' = oplog st) \<or>
    (\<exists>m. r \<noteq> Done () \<and> oplog st' = oplog st @ [Get (input_queue w) m]) \<or>
    (\<exists>m. r = Done () \<and>
        oplog st' = oplog st @ [Get (input_queue w) m, Put (output_queue w) error_signal]) \<or>
    (\<exists>m. r \<noteq> Done () \<and> oplog st' = oplog st @ [Get (input_queue w) m,
        Put (input_queue (trusted_server w)) hello_signal]) \<or>
    (\<exists>m ans. r \<noteq> Done () \<and> oplog st' = oplog st @ [Get (input_queue w) m,
        Put (input_queue (trusted_server w)) hello_signal,
        Get (output_queue (trusted_server w)) ans]) \<or>
    (\<exists>m ans a msg. r \<noteq> Done () \<and> trusted_server_input_queue w' = PQueue a \<and>
        oplog st' = oplog st @ [Get (input_queue w) m,
        Put (input_queue (trusted_server w)) hello_signal,
        Get (output_queue (trusted_server w)) ans, Put a (PTuple msg)]) \<or>
    (\<exists>m ans a msg b reply. r \<noteq> Done () \<and> trusted_server_input_queue w' = PQueue a \<and>
        py_unpack2 ans = Inr (PQueue a, PQueue b) \<and>
        oplog st' = oplog st @ [Get (input_queue w) m,
        Put (input_queue (trusted_server w)) hello_signal,
        Get (output_queue (trusted_server w)) ans, Put a (PTuple msg), Get b reply]) \<or>
    (\<exists>m ans a msg b reply v. r = Done () \<and> v \<noteq> max_connections_signal \<and>
        trusted_server_input_queue w' = PQueue a \<and>
        py_unpack2 ans = Inr (PQueue a, PQueue b) \<and>
        oplog st' = oplog st @ [Get (input_queue w) m,
        Put (input_queue (trusted_server w)) hello_signal,
        Get (output_queue (trusted_server w)) ans, Put a (PTuple msg), Get b reply,
        Put (output_queue w) v])"
proof -
  obtain r1 w1 st1 where g1: "get_from_queue w st (PQueue (input_queue w)) = (r1, w1, st1)"
    by (cases "get_from_queue w st (PQueue (input_queue w))") auto
  from get_from_queue_cases[OF g1] consider (ng) "\<forall>x. r1 \<noteq> Done x" "st1 = st"
    | (g) m xs where "r1 = Done m" "st1 = queue_popleft st (input_queue w) m xs" by blast
  then show ?thesis
  proof cases
    case ng
    then show ?thesis using assms g1 by (cases r1) (auto simp: run_def)
  next
    case g
    have e1: "output_queue w1 = output_queue w" "trusted_server w1 = trusted_server w"
      using g1 by (auto simp: get_from_queue_def split: prod.splits if_splits)
    obtain pr w2 where p: "process_message_from_client_and_generate_message_to_trusted U w1 m = (pr, w2)"
      by (cases "process_message_from_client_and_generate_message_to_trusted U w1 m") auto
    have e2: "output_queue w2 = output_queue w" "trusted_server w2 = trusted_server w"
      using process_client_entity[OF p] e1 by simp_all
    have l1: "oplog st1 = oplog st @ [Get (input_queue w) m]"
      using g by simp
    show ?thesis
    proof (cases pr)
      case (Inl e)
      then have "r = Raised e" "st' = st1" using assms g1 g p by (auto simp: run_def)
      then show ?thesis using l1 by auto
    next
      case (Inr msg)
      show ?thesis
      proof (cases "is_message_error msg")
        case True
        obtain r6 st6 where q: "Queue_put st1 (output_queue w2) error_signal = (r6, st6)"
          by (cases "Queue_put st1 (output_queue w2) error_signal") auto
        have res: "r = r6" "st' = st6"
          using assms g1 g p Inr True q by (auto simp: run_def)
        from Queue_put_cases[OF q] show ?thesis
          using res l1 e2 by auto
      next
        case False
        obtain fields where tup: "msg = PTuple fields"
          using process_client_value[OF p[unfolded Inr]] False
          by (auto simp: is_message_error_def)
        obtain r3 w3 st3 where c: "connect_to_trusted w2 st1 = (r3, w3, st3)"
          by (cases "connect_to_trusted w2 st1") auto
        from connect_to_trusted_cases[OF c] consider
          (nc) "r3 \<noteq> Done ()" "oplog st3 = oplog st1 \<or>
           oplog st3 = oplog st1 @ [Put (input_queue (trusted_server w)) hello_signal] \<or>
           (\<exists>x. oplog st3 = oplog st1 @ [Put (input_queue (trusted_server w)) hello_signal,
                     Get (output_queue (trusted_server w)) x])"
          | (c) x ta tb where "r3 = Done ()" "oplog st3 = oplog st1 @
               [Put (input_queue (trusted_server w)) hello_signal,
                Get (output_queue (trusted_server w)) x]"
             "w3 = w2\<lparr>trusted_server_input_queue := ta, trusted_server_output_queue := tb\<rparr>"
             "py_unpack2 x = Inr (ta, tb)"
          unfolding e2 by blast
        then show ?thesis
        proof cases
          case nc
          have "r = r3" "st' = st3"
            using assms g1 g p Inr False c nc(1) by (cases r3; auto simp: run_def)+
          then show ?thesis using nc l1 by auto
        next
          case c2: c
          have oq3: "output_queue w3 = output_queue w"
            using c2(3) e2 by simp
          have leg: "(case py_put st3 (trusted_server_input_queue w3) msg of
              (Blocked, st3) \<Rightarrow> (Blocked, w3, st3)
            | (Raised e, st3) \<Rightarrow> (Raised e, w3, st3)
            | (Done u, st3) \<Rightarrow>
           (case get_from_queue w3 st3 (trusted_server_output_queue w3) of
              (Blocked, w4, st4) \<Rightarrow> (Blocked, w4, st4)
            | (Raised e, w4, st4) \<Rightarrow> (Raised e, w4, st4)
            | (Done message_from_trusted, w4, st4) \<Rightarrow>
           (case process_message_from_trusted_and_generate_response_for_client U w4 message_from_trusted of
              (Inl e, w5) \<Rightarrow> (Raised e, w5, st4)
            | (Inr message_for_client, w5) \<Rightarrow>
                (case Queue_put st4 (output_queue w5) message_for_client of
                   (r, st5) \<Rightarrow> (r, w5, st5))))) = (r, w', st')"
            using assms g1 g p Inr False c c2(1) by (simp add: run_def)
          have tq: "trusted_server_input_queue w3 = ta" "trusted_server_output_queue w3 = tb"
            using c2(3) by simp_all
          from reply_leg_cases[OF leg] reply_leg_session[OF leg] show ?thesis
            unfolding oq3 c2(2) l1 tup tq using c2(4) by auto
        qed
      qed
    qed
  qed
qed


lemma run_forward:
  fixes w :: server_worker
  defines "inq \<equiv> input_queue w"
    and "tsin \<equiv> input_queue (trusted_server w)" and "tsout \<equiv> output_queue (trusted_server w)"
  assumes H1: "items (queues st inq) = m # rest"
    and H2: "py_list m = Inr [rc, cid, sid, blk]" "sid = server_id w"
    and H3: "prepare_inner_message U (server_key w) (PStr (random_key_str U)) rc cid sid = Inr enc"
    and H4: "items (queues st tsout) = PTuple [PQueue a, PQueue b] # rest2"
    and H6: "\<not> Queue_full st tsin" "\<not> Queue_full st a"
    and H7: "distinct [inq, tsin, tsout, a]"
  shows "\<exists>w3 st4.
      oplog st4 = oplog st @ [Get inq m, Put tsin hello_signal,
         Get tsout (PTuple [PQueue a, PQueue b]), Put a (PTuple [rc, cid, sid, blk, enc])]
    \<and> (\<forall>q. q \<notin> {inq, tsin, tsout, a} \<longrightarrow> queues st4 q = queues st q)
    \<and> items (queues st4 a) = items (queues st a) @ [PTuple [rc, cid, sid, blk, enc]]
    \<and> client_random_value w3 = rc \<and> nonce w3 = PStr (random_key_str U)
    \<and> server_key w3 = server_key w \<and> output_queue w3 = output_queue w
    \<and> run U w st =
       (case get_from_queue w3 st4 (PQueue b) of
          (Blocked, w4, st5) \<Rightarrow> (Blocked, w4, st5)
        | (Raised e, w4, st5) \<Rightarrow> (Raised e, w4, st5)
        | (Done message_from_trusted, w4, st5) \<Rightarrow>
       (case process_message_from_trusted_and_generate_response_for_client U w4 message_from_trusted of
          (Inl e, w5) \<Rightarrow> (Raised e, w5, st5)
        | (Inr message_for_client, w5) \<Rightarrow>
            (case Queue_put st5 (output_queue w5) message_for_client of
               (r, st6) \<Rightarrow> (r, w5, st6))))"
proof -
  define w1 where "w1 = w\<lparr>waiting_queues := (if PQueue inq \<in> set (waiting_queues w)
      then waiting_queues w else waiting_queues w @ [PQueue inq])\<rparr>"
  define st1 where "st1 = queue_popleft st inq m rest"
  have g1: "get_from_queue w st (PQueue (input_queue w)) = (Done m, w1, st1)"
    using H1 by (simp add: get_from_queue_head w1_def st1_def inq_def)
  define msg where "msg = PTuple [rc, cid, sid, blk, enc]"
  define w2 where "w2 = w1\<lparr>client_random_value := rc, client_client_id := cid,
      client_server_id := sid, nonce := PStr (random_key_str U)\<rparr>"
  have p1: "process_message_from_client_and_generate_message_to_trusted U w1 m = (Inr msg, w2)"
    unfolding msg_def w2_def
    by (rule process_client_accept[OF H2(1)]) (use H2(2) H3 in \<open>simp_all add: w1_def\<close>)
  have ne: "\<not> is_message_error msg"
    by (simp add: is_message_error_def msg_def)
  define st2 where "st2 = queue_append st1 tsin hello_signal"
  define st3 where "st3 = queue_popleft st2 tsout (PTuple [PQueue a, PQueue b]) rest2"
  have ts: "trusted_server w2 = trusted_server w"
    by (simp add: w2_def w1_def)
  have put1: "Queue_put st1 tsin hello_signal = (Done (), st2)"
    using H6(1) H7 by (simp add: Queue_put_not_full st1_def st2_def)
  have it2: "items (queues st2 tsout) = PTuple [PQueue a, PQueue b] # rest2"
    using H4 H7 by (simp add: st2_def st1_def)
  have get2: "Queue_get st2 tsout = (Done (PTuple [PQueue a, PQueue b]), st3)"
    using it2 by (simp add: Queue_get_head st3_def)
  define w3 where "w3 = w2\<lparr>trusted_server_input_queue := PQueue a,
      trusted_server_output_queue := PQueue b\<rparr>"
  have c1: "connect_to_trusted w2 st1 = (Done (), w3, st3)"
    by (simp add: connect_to_trusted_def establish_connection_def ts put1 get2
        tsin_def[symmetric] tsout_def[symmetric] py_unpack2_def w3_def)
  define st4 where "st4 = queue_append st3 a msg"
  have put2: "py_put st3 (trusted_server_input_queue w3) msg = (Done (), st4)"
    using H6(2) H7 by (simp add: w3_def Queue_put_not_full st4_def st3_def st2_def st1_def)
  have tq: "trusted_server_output_queue w3 = PQueue b"
    by (simp add: w3_def)
  have lg: "oplog st4 = oplog st @ [Get inq m, Put tsin hello_signal,
      Get tsout (PTuple [PQueue a, PQueue b]), Put a (PTuple [rc, cid, sid, blk, enc])]"
    by (simp add: st4_def st3_def st2_def st1_def msg_def)
  have oth: "\<forall>q. q \<notin> {inq, tsin, tsout, a} \<longrightarrow> queues st4 q = queues st q"
    by (simp add: st4_def st3_def st2_def st1_def)
  have ita: "items (queues st4 a) = items (queues st a) @ [PTuple [rc, cid, sid, blk, enc]]"
    using H7 by (simp add: st4_def st3_def st2_def st1_def msg_def)
  have flds: "client_random_value w3 = rc" "nonce w3 = PStr (random_key_str U)"
     "server_key w3 = server_key w" "output_queue w3 = output_queue w"
    by (simp_all add: w3_def w2_def w1_def)
  have r: "run U w st =
       (case get_from_queue w3 st4 (PQueue b) of
          (Blocked, w4, st5) \<Rightarrow> (Blocked, w4, st5)
        | (Raised e, w4, st5) \<Rightarrow> (Raised e, w4, st5)
        | (Done message_from_trusted, w4, st5) \<Rightarrow>
       (case process_message_from_trusted_and_generate_response_for_client U w4 message_from_trusted of
          (Inl e, w5) \<Rightarrow> (Raised e, w5, st5)
        | (Inr message_for_client, w5) \<Rightarrow>
            (case Queue_put st5 (output_queue w5) message_for_client of
               (r, st6) \<Rightarrow> (r, w5, st6))))"
    by (simp add: run_def g1 p1 ne c1 put2 tq)
  show ?thesis
    using lg oth ita flds r by blast
qed

lemma tail_leg_log:
  assumes "(case get_from_queue w3 st4 t of
          (Blocked, w4, st5) \<Rightarrow> (Blocked, w4, st5)
        | (Raised e, w4, st5) \<Rightarrow> (Raised e, w4, st5)
        | (Done message_from_trusted, w4, st5) \<Rightarrow>
       (case process_message_from_trusted_and_generate_response_for_client U w4 message_from_trusted of
          (Inl e, w5) \<Rightarrow> (Raised e, w5, st5)
        | (Inr message_for_client, w5) \<Rightarrow>
            (case Queue_put st5 (output_queue w5) message_for_client of
               (r, st6) \<Rightarrow> (r, w5, st6)))) = (r, w', st')"
  shows "\<exists>post. oplog st' = oplog st4 @ post"
proof -
  obtain r4 w4 st5 where g: "get_from_queue w3 st4 t = (r4, w4, st5)"
    by (cases "get_from_queue w3 st4 t") auto
  from get_from_queue_cases[OF g] have l5: "\<exists>p. oplog st5 = oplog st4 @ p" by auto
  show ?thesis
  proof (cases r4)
    case (Done mft)
    obtain pr w5 where pt:
      "process_message_from_trusted_and_generate_response_for_client U w4 mft = (pr, w5)"
      by (cases "process_message_from_trusted_and_generate_response_for_client U w4 mft") auto
    show ?thesis
    proof (cases pr)
      case (Inl e)
      then show ?thesis using assms g Done pt l5 by auto
    next
      case (Inr v)
      obtain r6 st6 where q: "Queue_put st5 (output_queue w5) v = (r6, st6)"
        by (cases "Queue_put st5 (output_queue w5) v") auto
      have "st' = st6" using assms g Done pt Inr q by simp
      then show ?thesis using Queue_put_cases[OF q] l5 by auto
    qed
  next
    case (Raised e)
    then show ?thesis using assms g l5 by auto
  next
    case Blocked
    then show ?thesis using assms g l5 by auto
  qed
qed

lemma tail_leg_other:
  assumes "(case get_from_queue w3 st4 t of
          (Blocked, w4, st5) \<Rightarrow> (Blocked, w4, st5)
        | (Raised e, w4, st5) \<Rightarrow> (Raised e, w4, st5)
        | (Done message_from_trusted, w4, st5) \<Rightarrow>
       (case process_message_from_trusted_and_generate_response_for_client U w4 message_from_trusted of
          (Inl e, w5) \<Rightarrow> (Raised e, w5, st5)
        | (Inr message_for_client, w5) \<Rightarrow>
            (case Queue_put st5 (output_queue w5) message_for_client of
               (r, st6) \<Rightarrow> (r, w5, st6)))) = (r, w', st')"
    and "t \<noteq> PQueue a" and "output_queue w3 \<noteq> a"
  shows "queues st' a = queues st4 a"
proof -
  obtain r4 w4 st5 where g: "get_from_queue w3 st4 t = (r4, w4, st5)"
    by (cases "get_from_queue w3 st4 t") auto
  from get_from_queue_cases[OF g] assms(2) have q5: "queues st5 a = queues st4 a"
    by (auto simp: queue_popleft_def split: if_splits)
  have oq4: "output_queue w4 = output_queue w3"
    using get_from_queue_entity[OF g] by simp
  show ?thesis
  proof (cases r4)
    case (Done mft)
    obtain pr w5 where pt:
      "process_message_from_trusted_and_generate_response_for_client U w4 mft = (pr, w5)"
      by (cases "process_message_from_trusted_and_generate_response_for_client U w4 mft") auto
    have oq5: "output_queue w5 \<noteq> a"
      using process_trusted_entity[OF pt] oq4 assms(3) by simp
    show ?thesis
    proof (cases pr)
      case (Inl e)
      then show ?thesis using assms(1) g Done pt q5 by auto
    next
      case (Inr v)
      obtain r6 st6 where q: "Queue_put st5 (output_queue w5) v = (r6, st6)"
        by (cases "Queue_put st5 (output_queue w5) v") auto
      have "st' = st6" using assms(1) g Done pt Inr q by simp
      then show ?thesis using Queue_put_cases[OF q] q5 oq5
        by (auto simp: queue_append_def split: if_splits)
    qed
  next
    case (Raised e)
    then show ?thesis using assms(1) g q5 by auto
  next
    case Blocked
    then show ?thesis using assms(1) g q5 by auto
  qed
qed

lemma run_exchange:
  fixes w :: server_worker
  defines "inq \<equiv> input_queue w" and "outq \<equiv> output_queue w"
    and "tsin \<equiv> input_queue (trusted_server w)" and "tsout \<equiv> output_queue (trusted_server w)"
  assumes H1: "items (queues st inq) = m # rest"
    and H2: "py_list m = Inr [rc, cid, sid, blk]" "sid = server_id w"
    and H3: "prepare_inner_message U (server_key w) (PStr (random_key_str U)) rc cid sid = Inr enc"
    and H4: "items (queues st tsout) = PTuple [PQueue a, PQueue b] # rest2"
    and H5: "items (queues st b) = reply # rest3"
    and H6: "\<not> Queue_full st tsin" "\<not> Queue_full st a" "\<not> Queue_full st outq"
    and H7: "distinct [inq, outq, tsin, tsout, a, b]"
  shows "\<exists>w4 st5.
      oplog st5 = oplog st @ [Get inq m, Put tsin hello_signal,
         Get tsout (PTuple [PQueue a, PQueue b]), Put a (PTuple [rc, cid, sid, blk, enc]),
         Get b reply]
    \<and> items (queues st5 a) = items (queues st a) @ [PTuple [rc, cid, sid, blk, enc]]
    \<and> items (queues st5 outq) = items (queues st outq)
    \<and> client_random_value w4 = rc \<and> nonce w4 = PStr (random_key_str U)
    \<and> server_key w4 = server_key w
    \<and> run U w st =
       (case process_message_from_trusted_and_generate_response_for_client U w4 reply of
          (Inl e, w5) \<Rightarrow> (Raised e, w5, st5)
        | (Inr v, w5) \<Rightarrow> (Done (), w5, queue_append st5 outq v))"
proof -
  have d4: "distinct [inq, tsin, tsout, a]" using H7 by simp
  from run_forward[OF H1[unfolded inq_def] H2 H3 H4[unfolded tsout_def] H6(1)[unfolded tsin_def]
      H6(2) d4[unfolded inq_def tsin_def tsout_def]]
  obtain w3 st4 where
    lg: "oplog st4 = oplog st @ [Get inq m, Put tsin hello_signal,
         Get tsout (PTuple [PQueue a, PQueue b]), Put a (PTuple [rc, cid, sid, blk, enc])]"
    and oth: "\<forall>q. q \<notin> {inq, tsin, tsout, a} \<longrightarrow> queues st4 q = queues st q"
    and ita: "items (queues st4 a) = items (queues st a) @ [PTuple [rc, cid, sid, blk, enc]]"
    and flds: "client_random_value w3 = rc" "nonce w3 = PStr (random_key_str U)"
      "server_key w3 = server_key w" "output_queue w3 = outq"
    and r: "run U w st =
       (case get_from_queue w3 st4 (PQueue b) of
          (Blocked, w4, st5) \<Rightarrow> (Blocked, w4, st5)
        | (Raised e, w4, st5) \<Rightarrow> (Raised e, w4, st5)
        | (Done message_from_trusted, w4, st5) \<Rightarrow>
       (case process_message_from_trusted_and_generate_response_for_client U w4 message_from_trusted of
          (Inl e, w5) \<Rightarrow> (Raised e, w5, st5)
        | (Inr message_for_client, w5) \<Rightarrow>
            (case Queue_put st5 (output_queue w5) message_for_client of
               (r, st6) \<Rightarrow> (r, w5, st6))))"
    unfolding inq_def tsin_def tsout_def outq_def by blast
  have qb: "queues st4 b = queues st b" and qo: "queues st4 outq = queues st outq"
    using oth H7 by auto
  define w4 where "w4 = w3\<lparr>waiting_queues := (if PQueue b \<in> set (waiting_queues w3)
      then waiting_queues w3 else waiting_queues w3 @ [PQueue b])\<rparr>"
  define st5 where "st5 = queue_popleft st4 b reply rest3"
  have g: "get_from_queue w3 st4 (PQueue b) = (Done reply, w4, st5)"
    using H5 qb by (simp add: get_from_queue_head w4_def st5_def)
  have nf: "\<not> Queue_full st5 outq"
    using H6(3) H7 qo by (simp add: st5_def Queue_full_def)
  have oq: "output_queue w4 = outq" by (simp add: w4_def flds)
  have lg5: "oplog st5 = oplog st @ [Get inq m, Put tsin hello_signal,
         Get tsout (PTuple [PQueue a, PQueue b]), Put a (PTuple [rc, cid, sid, blk, enc]),
         Get b reply]"
    by (simp add: st5_def lg)
  have f4: "client_random_value w4 = rc" "nonce w4 = PStr (random_key_str U)"
      "server_key w4 = server_key w"
    by (simp_all add: w4_def flds)
  have it5: "items (queues st5 a) = items (queues st a) @ [PTuple [rc, cid, sid, blk, enc]]"
      "items (queues st5 outq) = items (queues st outq)"
    using H7 ita qo by (simp_all add: st5_def)
  have r': "run U w st =
       (case process_message_from_trusted_and_generate_response_for_client U w4 reply of
          (Inl e, w5) \<Rightarrow> (Raised e, w5, st5)
        | (Inr v, w5) \<Rightarrow> (Done (), w5, queue_append st5 outq v))"
  proof (cases "process_message_from_trusted_and_generate_response_for_client U w4 reply")
    case (Pair pr w5)
    have "output_queue w5 = outq"
      using process_trusted_entity[OF Pair] oq by simp
    then show ?thesis
      using nf by (cases pr) (simp_all add: r g Pair Queue_put_not_full)
  qed
  show ?thesis using lg5 it5 f4 r' by blast
qed


lemma get_from_queue_empty:
  "items (queues st q) = [] \<Longrightarrow>
   get_from_queue s st (PQueue q) =
     (Blocked, s\<lparr>waiting_queues := (if PQueue q \<in> set (waiting_queues s) then waiting_queues s
           else waiting_queues s @ [PQueue q])\<rparr>, st)"
  by (simp add: get_from_queue_def Queue_get_def)

lemma run_blocked_without_message:
  "items (queues st (input_queue w)) = [] \<Longrightarrow>
   run U w st = (Blocked, w\<lparr>waiting_queues := (if PQueue (input_queue w) \<in> set (waiting_queues w)
        then waiting_queues w else waiting_queues w @ [PQueue (input_queue w)])\<rparr>, st)"
  by (simp add: run_def get_from_queue_empty)

lemma run_rejects_arity:
  assumes "items (queues st (input_queue w)) = m # rest"
    and "py_len m = Inr n" "n \<noteq> 4"
    and "maxsize (queues st (output_queue w)) \<le> 0"
  shows "run U w st =
     (Done (), w\<lparr>waiting_queues := (if PQueue (input_queue w) \<in> set (waiting_queues w)
        then waiting_queues w else waiting_queues w @ [PQueue (input_queue w)])\<rparr>,
      queue_append (queue_popleft st (input_queue w) m rest) (output_queue w) error_signal)"
  using assms(1,4)
  by (simp add: run_def get_from_queue_head process_client_arity[OF assms(2,3)]
      is_message_error_def Queue_put_unbounded)

lemma finish_len: "py_len finish_signal = Inr 6"
  by (simp add: finish_signal_def)

lemma run_finish_marker:
  assumes "items (queues st (input_queue w)) = finish_signal # rest"
    and "maxsize (queues st (output_queue w)) \<le> 0"
  shows "run U w st =
     (Done (), w\<lparr>waiting_queues := (if PQueue (input_queue w) \<in> set (waiting_queues w)
        then waiting_queues w else waiting_queues w @ [PQueue (input_queue w)])\<rparr>,
      queue_append (queue_popleft st (input_queue w) finish_signal rest)
        (output_queue w) error_signal)"
  by (rule run_rejects_arity[OF assms(1) finish_len _ assms(2)]) simp

lemma server_run_finish:
  assumes "items (queues st (input_queue s)) = finish_signal # rest"
  shows "server_run (Suc n) s st =
     (Some (Done ()),
      s\<lparr>waiting_queues := (if PQueue (input_queue s) \<in> set (waiting_queues s)
          then waiting_queues s else waiting_queues s @ [PQueue (input_queue s)]),
        running := False\<rparr>,
      queue_popleft st (input_queue s) finish_signal rest, [])"
  using assms
  by (cases n) (simp_all add: server_run_def get_from_queue_head is_finish_signal_def)


lemma process_client_reject:
  assumes "py_len m = Inr n" "n \<noteq> 4 \<or> py_index m 2 \<noteq> Inr (server_id w)"
  shows "fst (process_message_from_client_and_generate_message_to_trusted U w m) = Inr error_signal"
proof (cases "n = 4")
  case False
  then show ?thesis using process_client_arity[OF assms(1)] by simp
next
  case True
  then obtain xs where xs: "py_list m = Inr xs" "length xs = 4"
    using py_len_list[OF assms(1)] by auto
  then obtain rc cid sid blk where f: "xs = [rc, cid, sid, blk]"
    by (cases xs; cases "tl xs"; cases "tl (tl xs)"; cases "tl (tl (tl xs))") auto
  have "py_index m 2 = Inr sid"
    using py_list_index[OF xs(1), of 2] xs(2) f by simp
  then have "sid \<noteq> server_id w" using assms(2) True by auto
  then show ?thesis
    using process_client_mismatch[OF xs(1)[unfolded f]] by simp
qed

lemma run_returns_reject:
  assumes "items (queues st (input_queue w)) = m # rest"
    and "py_len m = Inr n" "n \<noteq> 4 \<or> py_index m 2 \<noteq> Inr (server_id w)"
    and "maxsize (queues st (output_queue w)) \<le> 0"
  shows "fst (run U w st) = Done ()"
proof -
  let ?w1 = "w\<lparr>waiting_queues := (if PQueue (input_queue w) \<in> set (waiting_queues w)
        then waiting_queues w else waiting_queues w @ [PQueue (input_queue w)])\<rparr>"
  obtain pr w2 where p:
    "process_message_from_client_and_generate_message_to_trusted U ?w1 m = (pr, w2)"
    by (cases "process_message_from_client_and_generate_message_to_trusted U ?w1 m") auto
  have "pr = Inr error_signal"
    using process_client_reject[OF assms(2), of ?w1 U] assms(3) p by simp
  moreover have "output_queue w2 = output_queue w"
    using process_client_entity[OF p] by simp
  ultimately show ?thesis
    using assms(1,4) p
    by (simp add: run_def get_from_queue_head is_message_error_def Queue_put_unbounded)
qed

lemma process_trusted_returns:
  assumes "py_len m = Inr n"
    and "\<And>blk. py_index m 2 = Inr blk \<Longrightarrow> \<exists>plain. decrypt U blk (server_key w) = Inr plain"
  shows "\<exists>v. fst (process_message_from_trusted_and_generate_response_for_client U w m) = Inr v"
proof (cases "n = 3")
  case False
  then show ?thesis using process_trusted_arity[OF assms(1)] by simp
next
  case True
  then obtain xs where xs: "py_list m = Inr xs" "length xs = 3"
    using py_len_list[OF assms(1)] by auto
  then obtain rv bc bs where f: "xs = [rv, bc, bs]"
    by (cases xs; cases "tl xs"; cases "tl (tl xs)") auto
  have "py_index m 2 = Inr bs"
    using py_list_index[OF xs(1), of 2] xs(2) f by simp
  then obtain plain where d: "decrypt U bs (server_key w) = Inr plain"
    using assms(2) by blast
  have sl: "\<exists>v. py_slice_butlast m = Inr v"
    using assms(1) by (cases m) auto
  show ?thesis
  proof (cases "length (py_split plain CHR '':'') = 2")
    case False
    then show ?thesis using process_trusted_nested_arity[OF xs(1)[unfolded f] d] by simp
  next
    case True
    then obtain a b where ab: "py_split plain CHR '':'' = [a, b]"
      using length2_cases by blast
    show ?thesis
      using process_trusted_split2[OF xs(1)[unfolded f] d ab] sl by auto
  qed
qed

lemma run_returns_accept:
  assumes "items (queues st (input_queue w)) = m # rest"
    and "py_list m = Inr [rc, cid, sid, blk]"
    and "sid = server_id w"
    and "prepare_inner_message U (server_key w) (PStr (random_key_str U)) rc cid sid = Inr enc"
    and "items (queues st (output_queue (trusted_server w))) = PTuple [PQueue a, PQueue b] # rest2"
    and "items (queues st b) = reply # rest3"
    and "\<not> Queue_full st (input_queue (trusted_server w))"
    and "\<not> Queue_full st a"
    and "\<not> Queue_full st (output_queue w)"
    and "distinct [input_queue w, output_queue w, input_queue (trusted_server w),
           output_queue (trusted_server w), a, b]"
    and "py_len reply = Inr n"
    and "\<And>c. py_index reply 2 = Inr c \<Longrightarrow> \<exists>plain. decrypt U c (server_key w) = Inr plain"
  shows "fst (run U w st) = Done ()"
proof -
  from run_exchange[OF assms(1-10)] obtain w4 st5 where
    f: "server_key w4 = server_key w"
    and r: "run U w st =
       (case process_message_from_trusted_and_generate_response_for_client U w4 reply of
          (Inl e, w5) \<Rightarrow> (Raised e, w5, st5)
        | (Inr v, w5) \<Rightarrow> (Done (), w5, queue_append st5 (output_queue w) v))"
    by blast
  have "\<And>c. py_index reply 2 = Inr c \<Longrightarrow> \<exists>plain. decrypt U c (server_key w4) = Inr plain"
    using assms(12) f by simp
  from process_trusted_returns[OF assms(11) this] obtain v where
    "fst (process_message_from_trusted_and_generate_response_for_client U w4 reply) = Inr v"
    by blast
  then show ?thesis
    by (cases "process_message_from_trusted_and_generate_response_for_client U w4 reply")
      (simp add: r)
qed


section \<open>Values that are never put on a queue\<close>

lemma never_emitted_append [simp]:
  "never_emitted v (queue_append st q x) = (never_emitted v st \<and> x \<noteq> v)"
  by (auto simp: never_emitted_def list_ex_iff)

lemma never_emitted_popleft [simp]:
  "never_emitted v (queue_popleft st q x xs) = never_emitted v st"
  by (auto simp: never_emitted_def list_ex_iff)

lemma establish_connection_never:
  "never_emitted max_connections_signal st \<Longrightarrow> establish_connection st e = (r, st') \<Longrightarrow>
   never_emitted max_connections_signal st'"
  by (drule establish_connection_cases) auto

lemma get_from_queue_never:
  "never_emitted v st \<Longrightarrow> get_from_queue s st t = (r, s', st') \<Longrightarrow> never_emitted v st'"
  by (drule get_from_queue_cases) auto

lemma finish_loop_never:
  "never_emitted max_connections_signal st \<Longrightarrow> finish_loop st qs = (r, st') \<Longrightarrow>
   never_emitted max_connections_signal st'"
proof (induction qs arbitrary: st)
  case Nil
  then show ?case by simp
next
  case (Cons q qs)
  obtain r1 st1 where p: "py_put st q finish_signal = (r1, st1)"
    by (cases "py_put st q finish_signal") auto
  have n1: "never_emitted max_connections_signal st1"
    using py_put_cases[OF p] Cons.prems(1) by auto
  show ?case
  proof (cases r1)
    case (Done u)
    then show ?thesis using Cons.IH[OF n1] Cons.prems(2) p by simp
  next
    case (Raised e)
    then show ?thesis using n1 Cons.prems(2) p by simp
  next
    case Blocked
    then show ?thesis using n1 Cons.prems(2) p by simp
  qed
qed

lemma run_never:
  assumes "never_emitted max_connections_signal st" "run U w st = (r, w', st')"
  shows "never_emitted max_connections_signal st'"
  using run_trace[OF assms(2)] assms(1)
  by (elim disjE exE conjE) (simp_all add: never_emitted_def)

lemma connect_oplog:
  "connect s st = (pair, new, st') \<Longrightarrow> oplog st' = oplog st \<and> (\<exists>xs. pair = PTuple xs)"
  by (auto simp: connect_def get_new_worker_def ServerWorker_init_def Queue_new_def
      split: prod.splits)

lemma serve_never:
  "never_emitted max_connections_signal st \<Longrightarrow> serve n s st started = (r, s', st', ws) \<Longrightarrow>
   never_emitted max_connections_signal st'"
proof (induction n arbitrary: s st started)
  case 0
  then show ?case by (auto split: if_splits)
next
  case (Suc n)
  show ?case
  proof (cases "running s")
    case False
    then show ?thesis using Suc.prems by simp
  next
    case True
    obtain r1 s1 st1 where g: "get_from_queue s st (PQueue (input_queue s)) = (r1, s1, st1)"
      by (cases "get_from_queue s st (PQueue (input_queue s))") auto
    have n1: "never_emitted max_connections_signal st1"
      using get_from_queue_never[OF Suc.prems(1) g] .
    show ?thesis
    proof (cases r1)
      case (Raised e)
      then show ?thesis using Suc.prems(2) True g n1 by simp
    next
      case Blocked
      then show ?thesis using Suc.prems(2) True g n1 by simp
    next
      case (Done message)
      show ?thesis
      proof (cases "is_finish_signal message")
        case fin: True
        then show ?thesis using Suc.prems(2) True g Done Suc.IH[OF n1] by simp
      next
        case nfin: False
        obtain pair new st2 where c: "connect s1 st1 = (pair, new, st2)"
          by (cases "connect s1 st1") auto
        obtain r3 st3 where q: "Queue_put st2 (output_queue s1) pair = (r3, st3)"
          by (cases "Queue_put st2 (output_queue s1) pair") auto
        have n2: "never_emitted max_connections_signal st2"
          using connect_oplog[OF c] n1 by (simp add: never_emitted_def)
        have n3: "never_emitted max_connections_signal st3"
          using Queue_put_cases[OF q] n2 connect_oplog[OF c] by auto
        show ?thesis
          using Suc.prems(2) True g Done nfin c q n3 Suc.IH[OF n3]
          by (cases r3) simp_all
      qed
    qed
  qed
qed


section \<open>Termination markers\<close>







section \<open>The example configuration, evaluated\<close>

lemma toy_worker_eq: "toy_worker = \<lparr>input_queue = 6, output_queue = 7, waiting_queues = [],
          server_key = PInt 7, server_id = PStr ''s1'', trusted_server = toy_trusted,
          trusted_server_input_queue = PNone, trusted_server_output_queue = PNone,
          trusted_random_value = PNone, client_random_value = PNone,
          client_client_id = PNone, client_server_id = PNone,
          trusted_nonce = PNone, session_key = PNone, nonce = PNone\<rparr>"
  by (simp add: toy_worker_def ServerWorker_init_def Queue_new_def empty_store_def)

lemma toy_store_queues: "queues toy_store = (\<lambda>q. \<lparr>maxsize = 0, items = []\<rparr>)"
  "oplog toy_store = []"
  by (auto simp add: toy_store_def ServerWorker_init_def Queue_new_def empty_store_def)


lemma toy_store_eq:
  "toy_store = \<lparr>queues = (\<lambda>q. \<lparr>maxsize = 0, items = []\<rparr>), next_queue = 8, oplog = []\<rparr>"
  by (simp add: toy_store_def ServerWorker_init_def Queue_new_def empty_store_def fun_eq_iff)


lemma toy_session_items:
  "items (queues toy_session 6) = [toy_request]"
  "items (queues toy_session 3) = [PTuple [PQueue 4, PQueue 5]]"
  "items (queues toy_session 5) = [toy_reply]"
  "oplog toy_session = []"
  "\<not> Queue_full toy_session q"
  by (simp_all add: toy_session_def toy_store_eq Queue_full_def)

lemma toy_request_fields:
  "py_list toy_request = Inr [PStr ''r'', PStr ''c1'', PStr ''s1'', PStr ''blk'']"
  by (simp add: toy_request_def)

lemma toy_block:
  "prepare_inner_message toy_utils (server_key toy_worker) (PStr (random_key_str toy_utils))
     (PStr ''r'') (PStr ''c1'') (PStr ''s1'')
   = Inr (PTuple [PInt 7, PStr ''42'', PStr ''r'', PStr ''c1'', PStr ''s1''])"
  by (simp add: toy_utils_def toy_worker_eq)

lemma toy_distinct:
  "distinct [input_queue toy_worker, input_queue (trusted_server toy_worker),
           output_queue (trusted_server toy_worker), 4]"
  "distinct [input_queue toy_worker, output_queue toy_worker,
     input_queue (trusted_server toy_worker), output_queue (trusted_server toy_worker), 4, 5]"
  by (simp_all add: toy_worker_eq toy_trusted_def)

lemma toy_waiting:
  "items (queues toy_session (input_queue toy_worker)) = toy_request # []"
  "items (queues toy_session (output_queue (trusted_server toy_worker)))
     = PTuple [PQueue 4, PQueue 5] # []"
  "items (queues toy_session 5) = PTuple [PStr ''r'', PStr ''for-client'', PStr ''42:sk''] # []"
  by (simp_all add: toy_worker_eq toy_trusted_def toy_session_items toy_reply_def)

lemma toy_server_id: "PStr ''s1'' = server_id toy_worker"
  by (simp add: toy_worker_eq)

lemma toy_decrypt:
  "decrypt toy_utils (PStr ''42:sk'') (server_key toy_worker) = Inr ''42:sk''"
  "py_split ''42:sk'' CHR '':'' = [random_key_str toy_utils, ''sk'']"
  by (simp_all add: toy_utils_def py_split_def)


lemma new_events_append: "oplog st' = oplog st @ new \<Longrightarrow> new_events st st' = new"
  by (simp add: new_events_def)

lemma run_output_puts:
  assumes "run U w st = (r, w', st')"
    and "input_queue (trusted_server w) \<noteq> output_queue w"
    and "trusted_server_input_queue w' \<noteq> PQueue (output_queue w)"
  shows "puts_on (output_queue w) (new_events st st') = (if r = Done () then 1 else 0)"
  using run_trace[OF assms(1)] assms(2,3)
  by (elim disjE exE conjE) (auto simp: new_events_def puts_on_def)

lemma toy_queues:
  "input_queue toy_worker = 6" "output_queue toy_worker = 7"
  "input_queue (trusted_server toy_worker) = 2" "output_queue (trusted_server toy_worker) = 3"
  by (simp_all add: toy_worker_eq toy_trusted_def)

lemma toy_aliased_run:
  "fst (run toy_utils toy_worker toy_aliased) = Done ()"
  "items (queues (snd (snd (run toy_utils toy_worker toy_aliased))) 7)
     = [PTuple [PStr ''r'', PStr ''c1'', PStr ''s1'', PStr ''blk'',
              PTuple [PInt 7, PStr ''42'', PStr ''r'', PStr ''c1'', PStr ''s1'']],
        PTuple [PStr ''r'', PStr ''for-client'']]"
  by (simp_all add: run_def get_from_queue_def Queue_get_def Queue_put_def Let_def
      toy_aliased_def toy_session_def toy_store_eq toy_worker_eq toy_trusted_def toy_request_def
      toy_reply_def toy_utils_def
      process_message_from_client_and_generate_message_to_trusted_def
      unpack_message_from_client_def validate_message_length_def validate_server_id_match_def
      prepare_message_for_trusted_server_def prepare_nested_message_for_trusted_def
      is_message_error_def error_signal_def hello_signal_def connect_to_trusted_def
      establish_connection_def py_unpack2_def
      process_message_from_trusted_and_generate_response_for_client_def
      unpack_message_from_trusted_def unpack_nested_message_from_trusted_def py_split_def
      validate_random_value_from_trusted_def validate_nested_message_from_trusted_def
      caught_def queue_append_def queue_popleft_def)

lemma toy_session_run:
  "trusted_server_input_queue (fst (snd (run toy_utils toy_worker toy_session))) = PQueue 4"
  by (simp add: run_def get_from_queue_def Queue_get_def Queue_put_def Let_def
      toy_session_def toy_store_eq toy_worker_eq toy_trusted_def toy_request_def
      toy_reply_def toy_utils_def
      process_message_from_client_and_generate_message_to_trusted_def
      unpack_message_from_client_def validate_message_length_def validate_server_id_match_def
      prepare_message_for_trusted_server_def prepare_nested_message_for_trusted_def
      is_message_error_def error_signal_def hello_signal_def connect_to_trusted_def
      establish_connection_def py_unpack2_def
      process_message_from_trusted_and_generate_response_for_client_def
      unpack_message_from_trusted_def unpack_nested_message_from_trusted_def py_split_def
      validate_random_value_from_trusted_def validate_nested_message_from_trusted_def
      caught_def queue_append_def queue_popleft_def)

lemma toy_none_run:
  "fst (run toy_utils toy_worker (snd (Queue_put toy_store 6 PNone))) = Raised TypeError"
  "oplog (snd (snd (run toy_utils toy_worker (snd (Queue_put toy_store 6 PNone)))))
     = [Put 6 PNone, Get 6 PNone]"
  "items (queues (snd (snd (run toy_utils toy_worker (snd (Queue_put toy_store 6 PNone))))) 7)
     = []"
  by (simp_all add: run_def get_from_queue_def Queue_get_def Queue_put_def Let_def
      toy_store_eq toy_worker_eq
      process_message_from_client_and_generate_message_to_trusted_def
      unpack_message_from_client_def validate_message_length_def caught_def
      queue_append_def queue_popleft_def)



section \<open>The claims\<close>

text \<open>
  Throughout, a client message or a reply ``with fields \<open>[a, b, c]\<close>'' is any value \<open>m\<close> with
  \<open>py_list m = Inr [a, b, c]\<close>: a tuple (the shape the actors send), a list, or a string of
  that many characters. The queue references involved in a run are \<open>input_queue w\<close> and
  \<open>output_queue w\<close> of the worker, the two queues of \<open>trusted_server w\<close>, and the pair
  \<open>a\<close>, \<open>b\<close> that the Trusted Server hands out in answer to the handshake.
\<close>

text \<open>
  Claim C1. A client message of four fields whose third field is not the worker's
  \<open>server_id\<close>: \<open>run\<close> returns after exactly two queue operations, the receive of the message
  and the put of \<open>ERROR\<close> on the worker's output queue, which then holds \<open>ERROR\<close> as its
  newest item. No other queue is touched, so nothing goes to the Trusted Server, and
  \<open>connect_to_trusted\<close> has not run: the attributes it assigns are unchanged, and no nonce was
  generated.
\<close>

theorem server_id_mismatch_rejected:
  assumes "items (queues st (input_queue w)) = m # rest"
    and "py_list m = Inr [rc, cid, sid, blk]"
    and "sid \<noteq> server_id w"
    and "maxsize (queues st (output_queue w)) \<le> 0"
  shows "fst (run U w st) = Done ()
     \<and> oplog (snd (snd (run U w st)))
         = oplog st @ [Get (input_queue w) m, Put (output_queue w) error_signal]
     \<and> (\<forall>q. q \<noteq> input_queue w \<and> q \<noteq> output_queue w \<longrightarrow>
           queues (snd (snd (run U w st))) q = queues st q)
     \<and> trusted_server_input_queue (fst (snd (run U w st))) = trusted_server_input_queue w
     \<and> trusted_server_output_queue (fst (snd (run U w st))) = trusted_server_output_queue w
     \<and> nonce (fst (snd (run U w st))) = nonce w
     \<and> items (queues (snd (snd (run U w st))) (output_queue w))
         = (if output_queue w = input_queue w then rest
            else items (queues st (output_queue w))) @ [error_signal]"
  using assms
  by (simp add: run_def get_from_queue_head process_client_mismatch is_message_error_def
      Queue_put_unbounded)

theorem server_id_mismatch_rejected_witness:
  "fst (run toy_utils toy_worker
       (toy_store\<lparr>queues := (queues toy_store)
          (6 := \<lparr>maxsize = 0, items = [PTuple [PStr ''r'', PStr ''c1'', PStr ''s2'', PStr ''blk'']]\<rparr>)\<rparr>))
       = Done ()
   \<and> oplog (snd (snd (run toy_utils toy_worker
       (toy_store\<lparr>queues := (queues toy_store)
          (6 := \<lparr>maxsize = 0, items = [PTuple [PStr ''r'', PStr ''c1'', PStr ''s2'', PStr ''blk'']]\<rparr>)\<rparr>))))
       = [Get 6 (PTuple [PStr ''r'', PStr ''c1'', PStr ''s2'', PStr ''blk'']), Put 7 error_signal]
   \<and> items (queues (snd (snd (run toy_utils toy_worker
       (toy_store\<lparr>queues := (queues toy_store)
          (6 := \<lparr>maxsize = 0, items = [PTuple [PStr ''r'', PStr ''c1'', PStr ''s2'', PStr ''blk'']]\<rparr>)\<rparr>)))) 7)
       = [error_signal]"
  using server_id_mismatch_rejected[of
      "toy_store\<lparr>queues := (queues toy_store)
          (6 := \<lparr>maxsize = 0, items = [PTuple [PStr ''r'', PStr ''c1'', PStr ''s2'', PStr ''blk'']]\<rparr>)\<rparr>"
      toy_worker "PTuple [PStr ''r'', PStr ''c1'', PStr ''s2'', PStr ''blk'']" "[]"
      "PStr ''r''" "PStr ''c1''" "PStr ''s2''" "PStr ''blk''" toy_utils]
  by (simp add: toy_worker_eq toy_store_eq)

text \<open>
  Claim C2. Processing the Trusted Server's reply of three fields: the third field is
  decrypted with the worker's \<open>server_key\<close> and split at \<open>:\<close>. If that does not give
  exactly two pieces, or the first piece is not the nonce the worker holds, the function
  returns \<open>ERROR\<close>.
\<close>

theorem trusted_block_rejected:
  assumes "py_list message = Inr [rv, bc, bs]"
    and "decrypt U bs (server_key w) = Inr plain"
    and "length (py_split plain CHR '':'') \<noteq> 2
         \<or> PStr (hd (py_split plain CHR '':'')) \<noteq> nonce w"
  shows "fst (process_message_from_trusted_and_generate_response_for_client U w message)
         = Inr error_signal"
proof (cases "length (py_split plain CHR '':'') = 2")
  case False
  then show ?thesis
    using process_trusted_nested_arity[OF assms(1,2)] by simp
next
  case True
  then obtain n k where nk: "py_split plain CHR '':'' = [n, k]"
    using length2_cases by blast
  then have "PStr n \<noteq> nonce w" using assms(3) by simp
  then show ?thesis
    using process_trusted_split2[OF assms(1,2) nk] by simp
qed

theorem trusted_block_rejected_witness:
  "fst (process_message_from_trusted_and_generate_response_for_client toy_utils
         (toy_worker\<lparr>client_random_value := PStr ''r'', nonce := PStr ''42''\<rparr>)
         (PTuple [PStr ''r'', PStr ''for-client'', PStr ''43:sk''])) = Inr error_signal
   \<and> py_split ''43:sk'' CHR '':'' = [''43'', ''sk'']"
  using trusted_block_rejected[of "PTuple [PStr ''r'', PStr ''for-client'', PStr ''43:sk'']"
      "PStr ''r''" "PStr ''for-client''" "PStr ''43:sk''" toy_utils
      "toy_worker\<lparr>client_random_value := PStr ''r'', nonce := PStr ''42''\<rparr>" "''43:sk''"]
  by (simp add: toy_utils_def py_split_def)

text \<open>
  Claim C3. A message whose number of fields is not the arity of its leg is answered with
  \<open>ERROR\<close> and nothing further is done for that leg: for a client message that has not four
  fields and for a reply that has not three, the worker's state is returned unchanged; for a
  reply whose decrypted third field does not split into two pieces, only
  \<open>trusted_random_value\<close> has been assigned, and neither \<open>trusted_nonce\<close> nor
  \<open>session_key\<close>.
\<close>

theorem wrong_arity_rejected:
  "(py_len m1 = Inr n1 \<and> n1 \<noteq> 4 \<longrightarrow>
      process_message_from_client_and_generate_message_to_trusted U w m1 = (Inr error_signal, w))
 \<and> (py_len m2 = Inr n2 \<and> n2 \<noteq> 3 \<longrightarrow>
      process_message_from_trusted_and_generate_response_for_client U w m2 = (Inr error_signal, w))
 \<and> (py_list m3 = Inr [rv, bc, bs] \<and> decrypt U bs (server_key w) = Inr plain
       \<and> length (py_split plain CHR '':'') \<noteq> 2 \<longrightarrow>
      process_message_from_trusted_and_generate_response_for_client U w m3
        = (Inr error_signal, w\<lparr>trusted_random_value := rv\<rparr>))"
  using process_client_arity process_trusted_arity process_trusted_nested_arity by blast

theorem wrong_arity_rejected_witness:
  "process_message_from_client_and_generate_message_to_trusted toy_utils toy_worker
      (PTuple [PStr ''r'', PStr ''c1'', PStr ''s1'']) = (Inr error_signal, toy_worker)
 \<and> process_message_from_trusted_and_generate_response_for_client toy_utils toy_worker
      (PTuple [PStr ''r'', PStr ''for-client'']) = (Inr error_signal, toy_worker)
 \<and> process_message_from_trusted_and_generate_response_for_client toy_utils toy_worker
      (PTuple [PStr ''r'', PStr ''for-client'', PStr ''42:sk:more''])
        = (Inr error_signal, toy_worker\<lparr>trusted_random_value := PStr ''r''\<rparr>)"
  using wrong_arity_rejected[of "PTuple [PStr ''r'', PStr ''c1'', PStr ''s1'']" 3
      toy_utils toy_worker "PTuple [PStr ''r'', PStr ''for-client'']" 2
      "PTuple [PStr ''r'', PStr ''for-client'', PStr ''42:sk:more'']"
      "PStr ''r''" "PStr ''for-client''" "PStr ''42:sk:more''" "''42:sk:more''"]
  by (simp add: toy_utils_def py_split_def)

text \<open>
  Claim C4. A client message of four fields whose third field is the worker's \<open>server_id\<close>:
  the message built for the Trusted Server is the tuple of the four fields, unchanged and in
  order, followed by the block that \<open>prepare_inner_message\<close> returns for the worker's
  \<open>server_key\<close>, the fresh nonce, the client's random value, the client identity and the
  server identity, in that order; the nonce is kept by the worker. In a run, after the
  handshake with the Trusted Server, this tuple is what is put on the queue \<open>a\<close> handed out
  by the Trusted Server, as the fourth queue operation of the run; the queue \<open>a\<close> then holds
  it as its newest item (when \<open>a\<close> is neither the reply queue \<open>b\<close> nor the worker's output
  queue, which the rest of the run uses).
\<close>

theorem request_forwarded_with_server_block:
  assumes "items (queues st (input_queue w)) = m # rest"
    and "py_list m = Inr [rc, cid, sid, blk]"
    and "sid = server_id w"
    and "prepare_inner_message U (server_key w) (PStr (random_key_str U)) rc cid sid = Inr enc"
    and "items (queues st (output_queue (trusted_server w))) = PTuple [PQueue a, PQueue b] # rest2"
    and "\<not> Queue_full st (input_queue (trusted_server w))"
    and "\<not> Queue_full st a"
    and "distinct [input_queue w, input_queue (trusted_server w),
           output_queue (trusted_server w), a]"
  shows "fst (process_message_from_client_and_generate_message_to_trusted U w m)
           = Inr (PTuple [rc, cid, sid, blk, enc])
       \<and> nonce (snd (process_message_from_client_and_generate_message_to_trusted U w m))
           = PStr (random_key_str U)
       \<and> (\<exists>post. oplog (snd (snd (run U w st))) = oplog st @
            [Get (input_queue w) m,
             Put (input_queue (trusted_server w)) hello_signal,
             Get (output_queue (trusted_server w)) (PTuple [PQueue a, PQueue b]),
             Put a (PTuple [rc, cid, sid, blk, enc])] @ post)
       \<and> (b \<noteq> a \<and> output_queue w \<noteq> a \<longrightarrow>
            items (queues (snd (snd (run U w st))) a)
              = items (queues st a) @ [PTuple [rc, cid, sid, blk, enc]])"
proof -
  from run_forward[OF assms] obtain w3 st4 where
    lg: "oplog st4 = oplog st @ [Get (input_queue w) m,
             Put (input_queue (trusted_server w)) hello_signal,
             Get (output_queue (trusted_server w)) (PTuple [PQueue a, PQueue b]),
             Put a (PTuple [rc, cid, sid, blk, enc])]"
    and ita: "items (queues st4 a) = items (queues st a) @ [PTuple [rc, cid, sid, blk, enc]]"
    and oq3: "output_queue w3 = output_queue w"
    and r: "run U w st =
       (case get_from_queue w3 st4 (PQueue b) of
          (Blocked, w4, st5) \<Rightarrow> (Blocked, w4, st5)
        | (Raised e, w4, st5) \<Rightarrow> (Raised e, w4, st5)
        | (Done message_from_trusted, w4, st5) \<Rightarrow>
       (case process_message_from_trusted_and_generate_response_for_client U w4 message_from_trusted of
          (Inl e, w5) \<Rightarrow> (Raised e, w5, st5)
        | (Inr message_for_client, w5) \<Rightarrow>
            (case Queue_put st5 (output_queue w5) message_for_client of
               (r, st6) \<Rightarrow> (r, w5, st6))))"
    by blast
  obtain r' w' st' where res: "run U w st = (r', w', st')"
    by (cases "run U w st") auto
  from tail_leg_log[OF r[unfolded res, symmetric]] obtain post where
    "oplog st' = oplog st4 @ post" by blast
  then have "\<exists>post. oplog (snd (snd (run U w st))) = oplog st @
            [Get (input_queue w) m,
             Put (input_queue (trusted_server w)) hello_signal,
             Get (output_queue (trusted_server w)) (PTuple [PQueue a, PQueue b]),
             Put a (PTuple [rc, cid, sid, blk, enc])] @ post"
    using res lg by simp
  moreover have "items (queues (snd (snd (run U w st))) a)
              = items (queues st a) @ [PTuple [rc, cid, sid, blk, enc]]"
    if "b \<noteq> a \<and> output_queue w \<noteq> a"
    using tail_leg_other[OF r[unfolded res, symmetric], of a] that oq3 ita res by simp
  ultimately show ?thesis
    using process_client_accept[OF assms(2,3,4)] by simp
qed

theorem request_forwarded_with_server_block_witness:
  "fst (process_message_from_client_and_generate_message_to_trusted toy_utils toy_worker
          toy_request)
     = Inr (PTuple [PStr ''r'', PStr ''c1'', PStr ''s1'', PStr ''blk'',
              PTuple [PInt 7, PStr ''42'', PStr ''r'', PStr ''c1'', PStr ''s1'']])
   \<and> (\<exists>post. oplog (snd (snd (run toy_utils toy_worker toy_session))) =
        [Get 6 toy_request, Put 2 hello_signal, Get 3 (PTuple [PQueue 4, PQueue 5]),
         Put 4 (PTuple [PStr ''r'', PStr ''c1'', PStr ''s1'', PStr ''blk'',
              PTuple [PInt 7, PStr ''42'', PStr ''r'', PStr ''c1'', PStr ''s1'']])] @ post)
   \<and> items (queues (snd (snd (run toy_utils toy_worker toy_session))) 4)
       = [PTuple [PStr ''r'', PStr ''c1'', PStr ''s1'', PStr ''blk'',
              PTuple [PInt 7, PStr ''42'', PStr ''r'', PStr ''c1'', PStr ''s1'']]]"
  using request_forwarded_with_server_block[OF toy_waiting(1) toy_request_fields toy_server_id
      toy_block toy_waiting(2) toy_session_items(5) toy_session_items(5) toy_distinct(1)]
  by (simp add: toy_session_items toy_session_def toy_store_eq toy_queues)

text \<open>
  Claim C5. When the reply \<open>(rc, bc, bs)\<close> of the Trusted Server passes every validation
  (three fields, the first equal to the client's random value \<open>rc\<close>, the third decrypting
  under \<open>server_key\<close> to the worker's nonce and a session key), the run returns, and its last
  queue operation puts the 2-tuple \<open>(rc, bc)\<close> on the worker's output queue: the reply
  without its last field. The output queue holds that 2-tuple as its newest item, and the
  queue \<open>a\<close> the forwarded request.
\<close>

theorem reply_forwarded_without_server_block:
  assumes "items (queues st (input_queue w)) = m # rest"
    and "py_list m = Inr [rc, cid, sid, blk]"
    and "sid = server_id w"
    and "prepare_inner_message U (server_key w) (PStr (random_key_str U)) rc cid sid = Inr enc"
    and "items (queues st (output_queue (trusted_server w))) = PTuple [PQueue a, PQueue b] # rest2"
    and "items (queues st b) = PTuple [rc, bc, bs] # rest3"
    and "\<not> Queue_full st (input_queue (trusted_server w))"
    and "\<not> Queue_full st a"
    and "\<not> Queue_full st (output_queue w)"
    and "distinct [input_queue w, output_queue w, input_queue (trusted_server w),
           output_queue (trusted_server w), a, b]"
    and "decrypt U bs (server_key w) = Inr plain"
    and "py_split plain CHR '':'' = [random_key_str U, k]"
  shows "fst (run U w st) = Done ()
       \<and> oplog (snd (snd (run U w st))) = oplog st @
            [Get (input_queue w) m,
             Put (input_queue (trusted_server w)) hello_signal,
             Get (output_queue (trusted_server w)) (PTuple [PQueue a, PQueue b]),
             Put a (PTuple [rc, cid, sid, blk, enc]),
             Get b (PTuple [rc, bc, bs]),
             Put (output_queue w) (PTuple [rc, bc])]
       \<and> session_key (fst (snd (run U w st))) = PStr k
       \<and> items (queues (snd (snd (run U w st))) (output_queue w))
            = items (queues st (output_queue w)) @ [PTuple [rc, bc]]
       \<and> items (queues (snd (snd (run U w st))) a)
            = items (queues st a) @ [PTuple [rc, cid, sid, blk, enc]]"
proof -
  from run_exchange[OF assms(1-10)] obtain w4 st5 where
    lg: "oplog st5 = oplog st @ [Get (input_queue w) m,
             Put (input_queue (trusted_server w)) hello_signal,
             Get (output_queue (trusted_server w)) (PTuple [PQueue a, PQueue b]),
             Put a (PTuple [rc, cid, sid, blk, enc]),
             Get b (PTuple [rc, bc, bs])]"
    and it: "items (queues st5 a) = items (queues st a) @ [PTuple [rc, cid, sid, blk, enc]]"
       "items (queues st5 (output_queue w)) = items (queues st (output_queue w))"
    and f: "client_random_value w4 = rc" "nonce w4 = PStr (random_key_str U)"
       "server_key w4 = server_key w"
    and r: "run U w st =
       (case process_message_from_trusted_and_generate_response_for_client U w4 (PTuple [rc, bc, bs]) of
          (Inl e, w5) \<Rightarrow> (Raised e, w5, st5)
        | (Inr v, w5) \<Rightarrow> (Done (), w5, queue_append st5 (output_queue w) v))"
    by blast
  have d: "decrypt U bs (server_key w4) = Inr plain" using assms(11) f(3) by simp
  have p: "process_message_from_trusted_and_generate_response_for_client U w4 (PTuple [rc, bc, bs])
     = (Inr (PTuple [rc, bc]), w4\<lparr>trusted_random_value := rc,
          trusted_nonce := PStr (random_key_str U), session_key := PStr k\<rparr>)"
    using process_trusted_split2[OF _ d assms(12), of "PTuple [rc, bc, bs]" rc bc] f by simp
  have "output_queue w \<noteq> a" using assms(10) by auto
  then show ?thesis
    by (simp add: r p lg it)
qed

theorem reply_forwarded_without_server_block_witness:
  "fst (run toy_utils toy_worker toy_session) = Done ()
   \<and> oplog (snd (snd (run toy_utils toy_worker toy_session))) =
        [Get 6 toy_request, Put 2 hello_signal, Get 3 (PTuple [PQueue 4, PQueue 5]),
         Put 4 (PTuple [PStr ''r'', PStr ''c1'', PStr ''s1'', PStr ''blk'',
              PTuple [PInt 7, PStr ''42'', PStr ''r'', PStr ''c1'', PStr ''s1'']]),
         Get 5 toy_reply, Put 7 (PTuple [PStr ''r'', PStr ''for-client''])]
   \<and> session_key (fst (snd (run toy_utils toy_worker toy_session))) = PStr ''sk''
   \<and> items (queues (snd (snd (run toy_utils toy_worker toy_session))) 7)
       = [PTuple [PStr ''r'', PStr ''for-client'']]"
  using reply_forwarded_without_server_block[OF toy_waiting(1) toy_request_fields toy_server_id
      toy_block toy_waiting(2) toy_waiting(3) toy_session_items(5) toy_session_items(5)
      toy_session_items(5) toy_distinct(2) toy_decrypt]
  by (simp add: toy_session_items toy_session_def toy_store_eq toy_queues toy_reply_def)

text \<open>
  Claim C6. The worker of the example configuration waits for its client's message;
  \<open>finish\<close> then puts the \<open>FINISH\<close> marker on the queue it waits on. The worker does not
  recognise the marker: \<open>run\<close> takes it for a client message of six fields and puts
  \<open>ERROR\<close> on the output queue. (The accept loop of the listening server does recognise the
  marker and stops without output: lemma \<open>server_run_finish\<close>.)
\<close>

theorem worker_finish_marker_emits_error:
  "run U toy_worker toy_store = (Blocked, toy_worker\<lparr>waiting_queues := [PQueue 6]\<rparr>, toy_store)
   \<and> finish (toy_worker\<lparr>waiting_queues := [PQueue 6]\<rparr>) toy_store
        = (Done (), queue_append toy_store 6 finish_signal)
   \<and> fst (run U (toy_worker\<lparr>waiting_queues := [PQueue 6]\<rparr>)
             (queue_append toy_store 6 finish_signal)) = Done ()
   \<and> oplog (snd (snd (run U (toy_worker\<lparr>waiting_queues := [PQueue 6]\<rparr>)
             (queue_append toy_store 6 finish_signal))))
        = [Put 6 finish_signal, Get 6 finish_signal, Put 7 error_signal]
   \<and> items (queues (snd (snd (run U (toy_worker\<lparr>waiting_queues := [PQueue 6]\<rparr>)
             (queue_append toy_store 6 finish_signal)))) 7) = [error_signal]"
proof -
  have a: "run U toy_worker toy_store
      = (Blocked, toy_worker\<lparr>waiting_queues := [PQueue 6]\<rparr>, toy_store)"
    by (subst run_blocked_without_message) (simp_all add: toy_worker_eq toy_store_eq)
  have b: "finish (toy_worker\<lparr>waiting_queues := [PQueue 6]\<rparr>) toy_store
        = (Done (), queue_append toy_store 6 finish_signal)"
    by (simp add: finish_def Queue_put_unbounded toy_store_eq)
  have c: "run U (toy_worker\<lparr>waiting_queues := [PQueue 6]\<rparr>)
             (queue_append toy_store 6 finish_signal)
       = (Done (), toy_worker\<lparr>waiting_queues := [PQueue 6]\<rparr>,
          queue_append (queue_popleft (queue_append toy_store 6 finish_signal) 6 finish_signal [])
            7 error_signal)"
    by (subst run_finish_marker[where rest = "[]"]) (simp_all add: toy_worker_eq toy_store_eq)
  show ?thesis
    by (simp add: a b c toy_store_queues)
qed




text \<open>
  Claim C8, as amended. A worker is single-use. Whatever the store holds, the queue
  operations of one \<open>run\<close> are an initial part of the fixed sequence: receive one client
  message; say \<open>HELLO\<close> to the Trusted Server; receive its answer; put one message on a queue
  \<open>a\<close>; receive one reply from a queue \<open>b\<close>; put one message on the output queue. When
  \<open>run\<close> returns, the operations are either the receive followed by the put of \<open>ERROR\<close>, or
  the whole sequence, in which \<open>a\<close> and \<open>b\<close> are the two queues named by the Trusted
  Server's answer: one client message received, at most one exchange with the Trusted Server,
  and the put on the output queue as the last operation.
  When \<open>run\<close> is left blocked or ends with an exception, the operations stop before that
  put. Provided neither the Trusted Server's input queue nor the queue it handed out is the
  worker's own output queue, the number of puts on the output queue is therefore exactly one
  when \<open>run\<close> returns and zero otherwise. And \<open>run\<close> does return: when the client's
  message has a length and is rejected; and when it is accepted, the Trusted Server has
  answered the handshake and replied with a message that has a length, and \<open>decrypt\<close> returns
  on the reply's third field.

  As stated without these conditions the claim fails (\<open>run_single_use_counterexample\<close>): for
  the client message \<open>None\<close> the run ends with \<open>TypeError\<close> and nothing on the output queue,
  and when the Trusted Server hands out the worker's own output queue, two messages are put
  on it.
\<close>

theorem run_single_use:
  "(run U w st = (r, w', st') \<longrightarrow>
      (\<exists>k m ans a msg b reply v.
        (if r = Done ()
         then oplog st' = oplog st @ [Get (input_queue w) m, Put (output_queue w) error_signal]
            \<or> oplog st' = oplog st @ [Get (input_queue w) m,
                 Put (input_queue (trusted_server w)) hello_signal,
                 Get (output_queue (trusted_server w)) ans,
                 Put a msg, Get b reply, Put (output_queue w) v]
              \<and> py_unpack2 ans = Inr (PQueue a, PQueue b)
              \<and> trusted_server_input_queue w' = PQueue a
         else oplog st' = oplog st @ take k [Get (input_queue w) m,
                 Put (input_queue (trusted_server w)) hello_signal,
                 Get (output_queue (trusted_server w)) ans,
                 Put a msg, Get b reply])))
   \<and> (run U w st = (r, w', st')
        \<and> input_queue (trusted_server w) \<noteq> output_queue w
        \<and> trusted_server_input_queue w' \<noteq> PQueue (output_queue w) \<longrightarrow>
      puts_on (output_queue w) (new_events st st') = (if r = Done () then 1 else 0))
   \<and> (items (queues sr (input_queue w)) = mr # restr \<and> py_len mr = Inr n
        \<and> (n \<noteq> 4 \<or> py_index mr 2 \<noteq> Inr (server_id w))
        \<and> maxsize (queues sr (output_queue w)) \<le> 0 \<longrightarrow>
      fst (run U w sr) = Done ())
   \<and> (items (queues sa (input_queue w)) = ma # resta
        \<and> py_list ma = Inr [rc, cid, sid, blk] \<and> sid = server_id w
        \<and> prepare_inner_message U (server_key w) (PStr (random_key_str U)) rc cid sid = Inr enc
        \<and> items (queues sa (output_queue (trusted_server w)))
             = PTuple [PQueue qa, PQueue qb] # restp
        \<and> items (queues sa qb) = answer # restq
        \<and> \<not> Queue_full sa (input_queue (trusted_server w))
        \<and> \<not> Queue_full sa qa \<and> \<not> Queue_full sa (output_queue w)
        \<and> distinct [input_queue w, output_queue w, input_queue (trusted_server w),
              output_queue (trusted_server w), qa, qb]
        \<and> py_len answer = Inr na
        \<and> (\<forall>c. py_index answer 2 = Inr c \<longrightarrow>
               (\<exists>plain. decrypt U c (server_key w) = Inr plain)) \<longrightarrow>
      fst (run U w sa) = Done ())"
proof (intro conjI impI)
  assume run: "run U w st = (r, w', st')"
  let ?P = "\<lambda>k m ans a msg b reply v.
      (if r = Done ()
       then oplog st' = oplog st @ [Get (input_queue w) m, Put (output_queue w) error_signal]
          \<or> oplog st' = oplog st @ [Get (input_queue w) m,
               Put (input_queue (trusted_server w)) hello_signal,
               Get (output_queue (trusted_server w)) ans,
               Put a msg, Get b reply, Put (output_queue w) v]
            \<and> py_unpack2 ans = Inr (PQueue a, PQueue b)
            \<and> trusted_server_input_queue w' = PQueue a
       else oplog st' = oplog st @ take k [Get (input_queue w) m,
               Put (input_queue (trusted_server w)) hello_signal,
               Get (output_queue (trusted_server w)) ans,
               Put a msg, Get b reply])"
  from run_trace[OF run] show "\<exists>k m ans a msg b reply v. ?P k m ans a msg b reply v"
  proof (elim disjE exE conjE, goal_cases)
    case 1
    then have "?P 0 PNone PNone 0 PNone 0 PNone PNone" by simp
    then show ?case by blast
  next
    case (2 m)
    then have "?P (Suc 0) m PNone 0 PNone 0 PNone PNone" by simp
    then show ?case by blast
  next
    case (3 m)
    then have "?P 0 m PNone 0 PNone 0 PNone PNone" by simp
    then show ?case by blast
  next
    case (4 m)
    then have "?P (Suc (Suc 0)) m PNone 0 PNone 0 PNone PNone" by simp
    then show ?case by blast
  next
    case (5 m ans)
    then have "?P (Suc (Suc (Suc 0))) m ans 0 PNone 0 PNone PNone" by simp
    then show ?case by blast
  next
    case (6 m ans a msg)
    then have "?P (Suc (Suc (Suc (Suc 0)))) m ans a (PTuple msg) 0 PNone PNone" by simp
    then show ?case by blast
  next
    case (7 m ans a msg b reply)
    then have "?P (Suc (Suc (Suc (Suc (Suc 0))))) m ans a (PTuple msg) b reply PNone" by simp
    then show ?case by blast
  next
    case (8 m ans a msg b reply v)
    then have "?P 0 m ans a (PTuple msg) b reply v" by simp
    then show ?case by blast
  qed
next
  assume "run U w st = (r, w', st')
        \<and> input_queue (trusted_server w) \<noteq> output_queue w
        \<and> trusted_server_input_queue w' \<noteq> PQueue (output_queue w)"
  then show "puts_on (output_queue w) (new_events st st') = (if r = Done () then 1 else 0)"
    using run_output_puts by blast
next
  assume "items (queues sr (input_queue w)) = mr # restr \<and> py_len mr = Inr n
        \<and> (n \<noteq> 4 \<or> py_index mr 2 \<noteq> Inr (server_id w))
        \<and> maxsize (queues sr (output_queue w)) \<le> 0"
  then show "fst (run U w sr) = Done ()"
    using run_returns_reject by blast
next
  assume h: "items (queues sa (input_queue w)) = ma # resta
        \<and> py_list ma = Inr [rc, cid, sid, blk] \<and> sid = server_id w
        \<and> prepare_inner_message U (server_key w) (PStr (random_key_str U)) rc cid sid = Inr enc
        \<and> items (queues sa (output_queue (trusted_server w)))
             = PTuple [PQueue qa, PQueue qb] # restp
        \<and> items (queues sa qb) = answer # restq
        \<and> \<not> Queue_full sa (input_queue (trusted_server w))
        \<and> \<not> Queue_full sa qa \<and> \<not> Queue_full sa (output_queue w)
        \<and> distinct [input_queue w, output_queue w, input_queue (trusted_server w),
              output_queue (trusted_server w), qa, qb]
        \<and> py_len answer = Inr na
        \<and> (\<forall>c. py_index answer 2 = Inr c \<longrightarrow>
               (\<exists>plain. decrypt U c (server_key w) = Inr plain))"
  show "fst (run U w sa) = Done ()"
    by (rule run_returns_accept[where m = ma and rest = resta and rc = rc and cid = cid
          and sid = sid and blk = blk and enc = enc and a = qa and b = qb and ?rest2.0 = restp
          and reply = answer and ?rest3.0 = restq and n = na]) (use h in \<open>auto\<close>)
qed

theorem run_single_use_witness:
  "fst (run toy_utils toy_worker toy_session) = Done ()
   \<and> (\<exists>m ans a msg b reply v.
         oplog (snd (snd (run toy_utils toy_worker toy_session)))
           = [Get 6 m, Put 7 error_signal]
       \<or> oplog (snd (snd (run toy_utils toy_worker toy_session)))
           = [Get 6 m, Put 2 hello_signal, Get 3 ans, Put a msg, Get b reply, Put 7 v])
   \<and> fst (run toy_utils toy_worker (queue_append toy_store 6 finish_signal)) = Done ()
   \<and> puts_on 7 (new_events toy_session (snd (snd (run toy_utils toy_worker toy_session)))) = 1"
proof -
  let ?sr = "queue_append toy_store 6 finish_signal"
  have hr: "items (queues ?sr (input_queue toy_worker)) = finish_signal # [] \<and>
        py_len finish_signal = Inr 6
        \<and> ((6::nat) \<noteq> 4 \<or> py_index finish_signal 2 \<noteq> Inr (server_id toy_worker))
        \<and> maxsize (queues ?sr (output_queue toy_worker)) \<le> 0"
    by (simp add: toy_worker_eq toy_store_queues finish_len)
  have ha: "items (queues toy_session (input_queue toy_worker)) = toy_request # []
        \<and> py_list toy_request = Inr [PStr ''r'', PStr ''c1'', PStr ''s1'', PStr ''blk'']
        \<and> PStr ''s1'' = server_id toy_worker
        \<and> prepare_inner_message toy_utils (server_key toy_worker)
             (PStr (random_key_str toy_utils)) (PStr ''r'') (PStr ''c1'') (PStr ''s1'')
           = Inr (PTuple [PInt 7, PStr ''42'', PStr ''r'', PStr ''c1'', PStr ''s1''])
        \<and> items (queues toy_session (output_queue (trusted_server toy_worker)))
             = PTuple [PQueue 4, PQueue 5] # []
        \<and> items (queues toy_session 5)
             = PTuple [PStr ''r'', PStr ''for-client'', PStr ''42:sk''] # []
        \<and> \<not> Queue_full toy_session (input_queue (trusted_server toy_worker))
        \<and> \<not> Queue_full toy_session 4 \<and> \<not> Queue_full toy_session (output_queue toy_worker)
        \<and> distinct [input_queue toy_worker, output_queue toy_worker,
              input_queue (trusted_server toy_worker),
              output_queue (trusted_server toy_worker), 4, 5]
        \<and> py_len (PTuple [PStr ''r'', PStr ''for-client'', PStr ''42:sk'']) = Inr 3
        \<and> (\<forall>c. py_index (PTuple [PStr ''r'', PStr ''for-client'', PStr ''42:sk'']) 2 = Inr c
               \<longrightarrow> (\<exists>plain. decrypt toy_utils c (server_key toy_worker) = Inr plain))"
    using toy_waiting toy_request_fields toy_server_id toy_block toy_session_items(5)
      toy_distinct(2) toy_decrypt(1) by simp
  have hs: "run toy_utils toy_worker toy_session =
     (fst (run toy_utils toy_worker toy_session),
      fst (snd (run toy_utils toy_worker toy_session)),
      snd (snd (run toy_utils toy_worker toy_session)))"
    by simp
  note T = run_single_use[where U = toy_utils and w = toy_worker and st = toy_session
      and r = "fst (run toy_utils toy_worker toy_session)"
      and w' = "fst (snd (run toy_utils toy_worker toy_session))"
      and st' = "snd (snd (run toy_utils toy_worker toy_session))"
      and sr = ?sr and mr = finish_signal and restr = "[]" and n = 6
      and sa = toy_session and ma = toy_request and resta = "[]"
      and rc = "PStr ''r''" and cid = "PStr ''c1''" and sid = "PStr ''s1''"
      and blk = "PStr ''blk''"
      and enc = "PTuple [PInt 7, PStr ''42'', PStr ''r'', PStr ''c1'', PStr ''s1'']"
      and qa = 4 and qb = 5 and restp = "[]"
      and answer = "PTuple [PStr ''r'', PStr ''for-client'', PStr ''42:sk'']"
      and restq = "[]" and na = 3]
  have a: "fst (run toy_utils toy_worker toy_session) = Done ()"
    using T ha by blast
  have r: "fst (run toy_utils toy_worker ?sr) = Done ()"
    using T hr by blast
  have "\<exists>k m ans a msg b reply v.
        (if fst (run toy_utils toy_worker toy_session) = Done ()
         then oplog (snd (snd (run toy_utils toy_worker toy_session)))
               = oplog toy_session @ [Get (input_queue toy_worker) m,
                   Put (output_queue toy_worker) error_signal]
            \<or> oplog (snd (snd (run toy_utils toy_worker toy_session)))
               = oplog toy_session @ [Get (input_queue toy_worker) m,
                 Put (input_queue (trusted_server toy_worker)) hello_signal,
                 Get (output_queue (trusted_server toy_worker)) ans,
                 Put a msg, Get b reply, Put (output_queue toy_worker) v]
              \<and> py_unpack2 ans = Inr (PQueue a, PQueue b)
              \<and> trusted_server_input_queue (fst (snd (run toy_utils toy_worker toy_session)))
                  = PQueue a
         else oplog (snd (snd (run toy_utils toy_worker toy_session)))
               = oplog toy_session @ take k [Get (input_queue toy_worker) m,
                 Put (input_queue (trusted_server toy_worker)) hello_signal,
                 Get (output_queue (trusted_server toy_worker)) ans,
                 Put a msg, Get b reply])"
    using T hs by blast
  then have "\<exists>m ans a msg b reply v.
         oplog (snd (snd (run toy_utils toy_worker toy_session)))
           = [Get 6 m, Put 7 error_signal]
       \<or> oplog (snd (snd (run toy_utils toy_worker toy_session)))
           = [Get 6 m, Put 2 hello_signal, Get 3 ans, Put a msg, Get b reply, Put 7 v]"
    unfolding a by (auto simp: toy_worker_eq toy_trusted_def toy_session_items(4))
  moreover have "puts_on 7 (new_events toy_session
      (snd (snd (run toy_utils toy_worker toy_session)))) = 1"
  proof -
    have "run toy_utils toy_worker toy_session =
       (fst (run toy_utils toy_worker toy_session),
        fst (snd (run toy_utils toy_worker toy_session)),
        snd (snd (run toy_utils toy_worker toy_session)))
       \<and> input_queue (trusted_server toy_worker) \<noteq> output_queue toy_worker
       \<and> trusted_server_input_queue (fst (snd (run toy_utils toy_worker toy_session)))
            \<noteq> PQueue (output_queue toy_worker)"
      using toy_session_run toy_queues by simp
    then have "puts_on (output_queue toy_worker) (new_events toy_session
        (snd (snd (run toy_utils toy_worker toy_session))))
      = (if fst (run toy_utils toy_worker toy_session) = Done () then 1 else 0)"
      using T by blast
    then show ?thesis using a by (simp add: toy_queues)
  qed
  ultimately show ?thesis using a r by simp
qed

theorem run_single_use_counterexample:
  "fst (run toy_utils toy_worker (snd (Queue_put toy_store 6 PNone))) = Raised TypeError
   \<and> oplog (snd (snd (run toy_utils toy_worker (snd (Queue_put toy_store 6 PNone)))))
       = [Put 6 PNone, Get 6 PNone]
   \<and> items (queues (snd (snd (run toy_utils toy_worker (snd (Queue_put toy_store 6 PNone))))) 7)
       = []
   \<and> fst (run toy_utils toy_worker toy_aliased) = Done ()
   \<and> items (queues (snd (snd (run toy_utils toy_worker toy_aliased))) 7)
       = [PTuple [PStr ''r'', PStr ''c1'', PStr ''s1'', PStr ''blk'',
              PTuple [PInt 7, PStr ''42'', PStr ''r'', PStr ''c1'', PStr ''s1'']],
          PTuple [PStr ''r'', PStr ''for-client'']]"
  by (simp add: toy_none_run toy_aliased_run)

text \<open>
  Claim C9. \<open>MAX_CONNECTIONS_REACHED\<close> is defined and never emitted: if no put recorded so
  far carried that value, none does after any operation of an entity, a listening server or a
  worker, namely \<open>establish_connection\<close>, \<open>finish\<close>, \<open>get_from_queue\<close>, the \<open>run\<close> of a
  worker, and any number of iterations of the accept loop of a server, whatever the queues
  hold.
\<close>

theorem max_connections_signal_never_emitted:
  assumes "never_emitted max_connections_signal st"
  shows "never_emitted max_connections_signal (snd (establish_connection st e))
       \<and> never_emitted max_connections_signal (snd (finish s st))
       \<and> never_emitted max_connections_signal (snd (snd (get_from_queue s st t)))
       \<and> never_emitted max_connections_signal (snd (snd (run U w st)))
       \<and> never_emitted max_connections_signal (fst (snd (snd (server_run n srv st))))"
proof (intro conjI)
  show "never_emitted max_connections_signal (snd (establish_connection st e))"
    using establish_connection_never[OF assms, of e] by (cases "establish_connection st e") auto
  show "never_emitted max_connections_signal (snd (finish s st))"
    using finish_loop_never[OF assms, of "waiting_queues s"]
    by (cases "finish_loop st (waiting_queues s)") (auto simp: finish_def)
  show "never_emitted max_connections_signal (snd (snd (get_from_queue s st t)))"
    using get_from_queue_never[OF assms, of s t] by (cases "get_from_queue s st t") auto
  show "never_emitted max_connections_signal (snd (snd (run U w st)))"
    using run_never[OF assms, of U w] by (cases "run U w st") auto
  show "never_emitted max_connections_signal (fst (snd (snd (server_run n srv st))))"
    using serve_never[OF assms, of n "srv\<lparr>running := True\<rparr>" "[]"]
    by (cases "serve n (srv\<lparr>running := True\<rparr>) st []") (auto simp: server_run_def)
qed

theorem max_connections_signal_never_emitted_witness:
  "never_emitted max_connections_signal (snd (establish_connection toy_listening toy_trusted))
   \<and> never_emitted max_connections_signal (snd (finish toy_worker toy_listening))
   \<and> never_emitted max_connections_signal
        (snd (snd (get_from_queue toy_worker toy_listening (PQueue 6))))
   \<and> never_emitted max_connections_signal (snd (snd (run toy_utils toy_worker toy_listening)))
   \<and> never_emitted max_connections_signal
        (fst (snd (snd (server_run 4 toy_server toy_listening))))"
proof -
  have "never_emitted max_connections_signal toy_listening"
    by (simp add: never_emitted_def toy_listening_def Server_init_def Queue_new_def
        toy_session_items(4))
  then show ?thesis
    by (rule max_connections_signal_never_emitted)
qed



end
